theory Spec2Isabelle
  imports Main "HOL-Library.Signed_Division" "HOL-Library.Multiset"
begin

section \<open>Data model of \<^verbatim>\<open>lib/event.go\<close>\<close>

text \<open>
  The package normalises one CloudWatch log record into an \<^verbatim>\<open>Event\<close>. Go strings are
  byte sequences and are modelled as \<^typ>\<open>string\<close>; a Go pointer field that may be
  \<^verbatim>\<open>nil\<close> is an \<^typ>\<open>'a option\<close>; a nil-pointer dereference is the run-time panic
  \<open>NilDereference\<close>, an index out of range is \<open>IndexOutOfRange\<close>.
\<close>

datatype panic = NilDereference | IndexOutOfRange

text \<open>
  \<^verbatim>\<open>ecslogs.Level\<close> is an integer enumeration of the third-party package
  \<^verbatim>\<open>github.com/segmentio/ecs-logs-go\<close>, declared with \<^verbatim>\<open>iota\<close>: its first constant
  \<^verbatim>\<open>NONE\<close> is the Go zero value of the type.
\<close>

datatype Level =
  NONE | EMERGENCY | ALERT | CRITICAL | ERROR | WARNING | NOTICE | INFO | DEBUG | TRACE

definition Level_zero :: Level where
  "Level_zero = NONE"

text \<open>
  A \<^verbatim>\<open>time.Time\<close> is modelled by the instant it denotes: seconds since the Unix epoch
  and nanoseconds within that second (\<open>0 \<le> nsec < 10^9\<close> for every value the library
  builds). The location attached to a Go time value does not take part in \<^verbatim>\<open>IsZero\<close>
  or \<^verbatim>\<open>Before\<close> and is left out.
\<close>

record Time =
  sec :: int
  nsec :: int

text \<open>The zero \<^verbatim>\<open>time.Time\<close> is January 1, year 1, 00:00:00 UTC.\<close>

definition Time_zero :: Time where
  "Time_zero = \<lparr>sec = - 62135596800, nsec = 0\<rparr>"

definition IsZero :: "Time \<Rightarrow> bool" where
  "IsZero t \<longleftrightarrow> sec t = - 62135596800 \<and> nsec t = 0"

definition Before :: "Time \<Rightarrow> Time \<Rightarrow> bool" where
  "Before t u \<longleftrightarrow> sec t < sec u \<or> (sec t = sec u \<and> nsec t < nsec u)"

text \<open>
  \<^verbatim>\<open>time.Unix(sec, nsec)\<close>: a nanosecond argument outside \<open>[0, 10^9)\<close> is carried into
  the seconds. Go's \<^verbatim>\<open>/\<close> truncates towards zero (\<open>sdiv\<close>).
\<close>

definition Unix :: "int \<Rightarrow> int \<Rightarrow> Time" where
  "Unix s ns =
     (if ns < 0 \<or> ns \<ge> 1000000000 then
        (let n = ns sdiv 1000000000;
             s1 = s + n;
             ns1 = ns - n * 1000000000
         in if ns1 < 0 then \<lparr>sec = s1 - 1, nsec = ns1 + 1000000000\<rparr>
            else \<lparr>sec = s1, nsec = ns1\<rparr>)
      else \<lparr>sec = s, nsec = ns\<rparr>)"

text \<open>
  \<^verbatim>\<open>ParseAWSTimestamp(i *int64)\<close>. The argument is a 64-bit integer; its quotient by
  \<open>1000\<close> and its remainder by \<open>1000\<close> times \<open>10^6\<close> are bounded by the argument and by
  \<open>999 * 10^6\<close>, so nothing wraps and the integer is modelled as \<^typ>\<open>int\<close> with Go's
  truncating \<open>sdiv\<close> and \<open>smod\<close>.
\<close>

definition ParseAWSTimestamp :: "int option \<Rightarrow> Time" where
  "ParseAWSTimestamp i =
     (case i of
        None \<Rightarrow> Unix 0 0
      | Some ms \<Rightarrow> Unix (ms sdiv 1000) ((ms smod 1000) * 1000000))"

record SourceInfo =
  Function :: string
  File :: string
  Line :: int

definition SourceInfo_zero :: SourceInfo where
  "SourceInfo_zero = \<lparr>Function = [], File = [], Line = 0\<rparr>"

text \<open>
  \<^verbatim>\<open>Data map[string]string\<close> is a partial map; a nil map and an empty map read the
  same and are both \<open>Map.empty\<close>.
\<close>

record SlogEvent =
  Level :: Level
  Time :: Time
  Source :: SourceInfo
  Message :: string
  Data :: "string \<rightharpoonup> string"

definition SlogEvent_zero :: SlogEvent where
  "SlogEvent_zero =
     \<lparr>Level = Level_zero, Time = Time_zero, Source = SourceInfo_zero,
      Message = [], Data = Map.empty\<rparr>"

record Event = SlogEvent +
  Stream :: string
  Group :: string
  ID :: string
  IngestTime :: Time
  CreationTime :: Time

text \<open>\<^verbatim>\<open>cloudwatchlogs.FilteredLogEvent\<close> of the AWS SDK: every field is a pointer.\<close>

record FilteredLogEvent =
  EventId :: "string option"
  IngestionTime :: "int option"
  LogStreamName :: "string option"
  Message_cw :: "string option"
  Timestamp :: "int option"

section \<open>Short stream identifier\<close>

text \<open>The POSIX class \<^verbatim>\<open>[[:alnum:]]\<close> of Go's regexp package: ASCII letters and digits.\<close>

definition alnum :: "char \<Rightarrow> bool" where
  "alnum c \<longleftrightarrow>
     (let n = of_char c :: nat
      in (48 \<le> n \<and> n \<le> 57) \<or> (65 \<le> n \<and> n \<le> 90) \<or> (97 \<le> n \<and> n \<le> 122))"

text \<open>\<^verbatim>\<open>[[:alnum:]]{n}\<close> at the head of the text: the rest of the text, if it matches.\<close>

fun alnum_group :: "nat \<Rightarrow> string \<Rightarrow> string option" where
  "alnum_group 0 s = Some s"
| "alnum_group (Suc n) [] = None"
| "alnum_group (Suc n) (c # s) = (if alnum c then alnum_group n s else None)"

definition hyphen :: "string \<Rightarrow> string option" where
  "hyphen s = (case s of c # r \<Rightarrow> if c = CHR ''-'' then Some r else None | [] \<Rightarrow> None)"

text \<open>
  \<^verbatim>\<open>TaskUUIDPattern.MatchString\<close>: the pattern is anchored at both ends and has no
  alternative, so it is matched left to right.
\<close>

definition TaskUUIDPattern :: "string \<Rightarrow> bool" where
  "TaskUUIDPattern s =
     (Option.bind (alnum_group 8 s) (\<lambda>s.
      Option.bind (hyphen s) (\<lambda>s.
      Option.bind (alnum_group 4 s) (\<lambda>s.
      Option.bind (hyphen s) (\<lambda>s.
      Option.bind (alnum_group 4 s) (\<lambda>s.
      Option.bind (hyphen s) (\<lambda>s.
      Option.bind (alnum_group 4 s) (\<lambda>s.
      Option.bind (hyphen s) (\<lambda>s.
      alnum_group 12 s)))))))) = Some [])"

text \<open>\<^verbatim>\<open>strings.Split(s, "-")\<close>: the pieces between hyphens, always at least one.\<close>

fun Split_hyphen :: "string \<Rightarrow> string list" where
  "Split_hyphen [] = [[]]"
| "Split_hyphen (c # s) =
     (if c = CHR ''-'' then [] # Split_hyphen s
      else (case Split_hyphen s of p # ps \<Rightarrow> (c # p) # ps | [] \<Rightarrow> [[c]]))"

definition TaskShort :: "'a Event_scheme \<Rightarrow> string" where
  "TaskShort e =
     (if TaskUUIDPattern (Stream e) then
        (case Split_hyphen (Stream e) of p # ps \<Rightarrow> p | [] \<Rightarrow> [])
      else Stream e)"

section \<open>Ordering by creation time\<close>

text \<open>\<^verbatim>\<open>ByCreationTime.Less(i, j)\<close>; indexing outside the slice panics.\<close>

definition Less :: "Event list \<Rightarrow> int \<Rightarrow> int \<Rightarrow> panic + bool" where
  "Less b i j =
     (if 0 \<le> i \<and> i < int (length b) \<and> 0 \<le> j \<and> j < int (length b)
      then Inr (Before (CreationTime (b ! nat i)) (CreationTime (b ! nat j)))
      else Inl IndexOutOfRange)"

text \<open>The comparison \<^verbatim>\<open>Less\<close> makes between two elements.\<close>

definition less_event :: "Event \<Rightarrow> Event \<Rightarrow> bool" where
  "less_event a b = Before (CreationTime a) (CreationTime b)"

text \<open>
  The package has no sort of its own: callers hand a \<^verbatim>\<open>ByCreationTime\<close> to the
  standard library. \<open>sort_events\<close> is a stable sort that looks at the elements through
  \<^verbatim>\<open>Less\<close> only: an element is put behind exactly the elements that are \<^verbatim>\<open>Less\<close>.
\<close>

fun insort_event :: "Event \<Rightarrow> Event list \<Rightarrow> Event list" where
  "insort_event x [] = [x]"
| "insort_event x (y # ys) =
     (if less_event y x then y # insort_event x ys else x # y # ys)"

definition sort_events :: "Event list \<Rightarrow> Event list" where
  "sort_events xs = foldr insort_event xs []"

section \<open>The JSON scanner of \<^verbatim>\<open>encoding/json\<close>\<close>

text \<open>
  \<^verbatim>\<open>json.Unmarshal\<close> first runs its scanner over the whole input (\<^verbatim>\<open>checkValid\<close>) and
  fails with a syntax error unless the input is one JSON value between optional white
  space. The scanner is a state machine over the bytes with a stack of the open objects
  and arrays; it is transcribed here state by state.
\<close>

datatype parse_state = parseObjectKey | parseObjectValue | parseArrayValue

datatype step =
    BeginValueOrEmpty | BeginValue | BeginStringOrEmpty | BeginString
  | EndValue | EndTop
  | InString | InStringEsc | InStringEscU | InStringEscU1 | InStringEscU12 | InStringEscU123
  | Neg | Digit1 | Digit0 | Dot | Dot0 | Exp | ESign | Exp0
  | StT | StTr | StTru | StF | StFa | StFal | StFals | StN | StNu | StNul
  | ScanError

type_synonym scanner = "step \<times> parse_state list"

definition isSpace :: "char \<Rightarrow> bool" where
  "isSpace c \<longleftrightarrow> c = CHR '' '' \<or> c = CHR 0x09 \<or> c = CHR 0x0D \<or> c = CHR 0x0A"

definition isDigit :: "char \<Rightarrow> bool" where
  "isDigit c \<longleftrightarrow> 48 \<le> (of_char c :: nat) \<and> (of_char c :: nat) \<le> 57"

definition isHex :: "char \<Rightarrow> bool" where
  "isHex c \<longleftrightarrow>
     (let n = of_char c :: nat
      in (48 \<le> n \<and> n \<le> 57) \<or> (65 \<le> n \<and> n \<le> 70) \<or> (97 \<le> n \<and> n \<le> 102))"

definition maxNestingDepth :: nat where
  "maxNestingDepth = 10000"

definition pushParseState :: "parse_state \<Rightarrow> step \<Rightarrow> parse_state list \<Rightarrow> scanner" where
  "pushParseState p successState st =
     (if Suc (length st) \<le> maxNestingDepth then (successState, p # st) else (ScanError, st))"

definition popParseState :: "parse_state list \<Rightarrow> scanner" where
  "popParseState st = (case st of [] \<Rightarrow> (EndTop, []) | _ # _ \<Rightarrow> (EndValue, st))"

definition stateEndTop :: "char \<Rightarrow> scanner" where
  "stateEndTop c = (if isSpace c then (EndTop, []) else (ScanError, []))"

fun stateEndValue :: "parse_state list \<Rightarrow> char \<Rightarrow> scanner" where
  "stateEndValue [] c = stateEndTop c"
| "stateEndValue (ps # st) c =
     (if isSpace c then (EndValue, ps # st)
      else (case ps of
        parseObjectKey \<Rightarrow>
          if c = CHR '':'' then (BeginValue, parseObjectValue # st) else (ScanError, ps # st)
      | parseObjectValue \<Rightarrow>
          if c = CHR '','' then (BeginString, parseObjectKey # st)
          else if c = CHR ''}'' then popParseState st
          else (ScanError, ps # st)
      | parseArrayValue \<Rightarrow>
          if c = CHR '','' then (BeginValue, ps # st)
          else if c = CHR '']'' then popParseState st
          else (ScanError, ps # st)))"

definition stateBeginValue :: "step \<Rightarrow> parse_state list \<Rightarrow> char \<Rightarrow> scanner" where
  "stateBeginValue cur st c =
     (if isSpace c then (cur, st)
      else if c = CHR ''{'' then pushParseState parseObjectKey BeginStringOrEmpty st
      else if c = CHR ''['' then pushParseState parseArrayValue BeginValueOrEmpty st
      else if c = CHR 0x22 then (InString, st)
      else if c = CHR ''-'' then (Neg, st)
      else if c = CHR ''0'' then (Digit0, st)
      else if c = CHR ''t'' then (StT, st)
      else if c = CHR ''f'' then (StF, st)
      else if c = CHR ''n'' then (StN, st)
      else if isDigit c then (Digit1, st)
      else (ScanError, st))"

definition stateBeginString :: "step \<Rightarrow> parse_state list \<Rightarrow> char \<Rightarrow> scanner" where
  "stateBeginString cur st c =
     (if isSpace c then (cur, st)
      else if c = CHR 0x22 then (InString, st)
      else (ScanError, st))"

definition state0 :: "parse_state list \<Rightarrow> char \<Rightarrow> scanner" where
  "state0 st c =
     (if c = CHR ''.'' then (Dot, st)
      else if c = CHR ''e'' \<or> c = CHR ''E'' then (Exp, st)
      else stateEndValue st c)"

definition stateESign :: "parse_state list \<Rightarrow> char \<Rightarrow> scanner" where
  "stateESign st c = (if isDigit c then (Exp0, st) else (ScanError, st))"

fun scan_step :: "scanner \<Rightarrow> char \<Rightarrow> scanner" where
  "scan_step (BeginValue, st) c = stateBeginValue BeginValue st c"
| "scan_step (BeginValueOrEmpty, st) c =
     (if isSpace c then (BeginValueOrEmpty, st)
      else if c = CHR '']'' then stateEndValue st c
      else stateBeginValue BeginValueOrEmpty st c)"
| "scan_step (BeginStringOrEmpty, st) c =
     (if isSpace c then (BeginStringOrEmpty, st)
      else if c = CHR ''}'' then
        (case st of _ # st' \<Rightarrow> stateEndValue (parseObjectValue # st') c
                  | [] \<Rightarrow> (ScanError, st))
      else stateBeginString BeginStringOrEmpty st c)"
| "scan_step (BeginString, st) c = stateBeginString BeginString st c"
| "scan_step (EndValue, st) c = stateEndValue st c"
| "scan_step (EndTop, st) c = stateEndTop c"
| "scan_step (InString, st) c =
     (if c = CHR 0x22 then (EndValue, st)
      else if c = CHR 0x5C then (InStringEsc, st)
      else if (of_char c :: nat) < 0x20 then (ScanError, st)
      else (InString, st))"
| "scan_step (InStringEsc, st) c =
     (if c \<in> set ''bfnrt'' \<or> c = CHR 0x5C \<or> c = CHR ''/'' \<or> c = CHR 0x22 then (InString, st)
      else if c = CHR ''u'' then (InStringEscU, st)
      else (ScanError, st))"
| "scan_step (InStringEscU, st) c = (if isHex c then (InStringEscU1, st) else (ScanError, st))"
| "scan_step (InStringEscU1, st) c = (if isHex c then (InStringEscU12, st) else (ScanError, st))"
| "scan_step (InStringEscU12, st) c = (if isHex c then (InStringEscU123, st) else (ScanError, st))"
| "scan_step (InStringEscU123, st) c = (if isHex c then (InString, st) else (ScanError, st))"
| "scan_step (Neg, st) c =
     (if c = CHR ''0'' then (Digit0, st)
      else if isDigit c then (Digit1, st)
      else (ScanError, st))"
| "scan_step (Digit1, st) c = (if isDigit c then (Digit1, st) else state0 st c)"
| "scan_step (Digit0, st) c = state0 st c"
| "scan_step (Dot, st) c = (if isDigit c then (Dot0, st) else (ScanError, st))"
| "scan_step (Dot0, st) c =
     (if isDigit c then (Dot0, st)
      else if c = CHR ''e'' \<or> c = CHR ''E'' then (Exp, st)
      else stateEndValue st c)"
| "scan_step (Exp, st) c =
     (if c = CHR ''+'' \<or> c = CHR ''-'' then (ESign, st) else stateESign st c)"
| "scan_step (ESign, st) c = stateESign st c"
| "scan_step (Exp0, st) c = (if isDigit c then (Exp0, st) else stateEndValue st c)"
| "scan_step (StT, st) c = (if c = CHR ''r'' then (StTr, st) else (ScanError, st))"
| "scan_step (StTr, st) c = (if c = CHR ''u'' then (StTru, st) else (ScanError, st))"
| "scan_step (StTru, st) c = (if c = CHR ''e'' then (EndValue, st) else (ScanError, st))"
| "scan_step (StF, st) c = (if c = CHR ''a'' then (StFa, st) else (ScanError, st))"
| "scan_step (StFa, st) c = (if c = CHR ''l'' then (StFal, st) else (ScanError, st))"
| "scan_step (StFal, st) c = (if c = CHR ''s'' then (StFals, st) else (ScanError, st))"
| "scan_step (StFals, st) c = (if c = CHR ''e'' then (EndValue, st) else (ScanError, st))"
| "scan_step (StN, st) c = (if c = CHR ''u'' then (StNu, st) else (ScanError, st))"
| "scan_step (StNu, st) c = (if c = CHR ''l'' then (StNul, st) else (ScanError, st))"
| "scan_step (StNul, st) c = (if c = CHR ''l'' then (EndValue, st) else (ScanError, st))"
| "scan_step (ScanError, st) c = (ScanError, st)"

text \<open>
  \<^verbatim>\<open>checkValid\<close>: every byte is fed to the scanner, then \<^verbatim>\<open>eof\<close> feeds one space to end
  a number at the end of the input, and the input is valid if the top-level value is
  complete.
\<close>

definition checkValid :: "string \<Rightarrow> bool" where
  "checkValid data \<longleftrightarrow>
     fst (foldl scan_step (BeginValue, []) (data @ '' '')) = EndTop"


section \<open>Decoding JSON values\<close>

text \<open>
  What \<^verbatim>\<open>json.Unmarshal\<close> does after the validity check depends on the kind of the value
  and on the Go type it decodes into. The kind of a valid value shows in its first byte.
\<close>

datatype json_kind = JNull | JBool | JNumber | JString | JArray | JObject

definition trimSpace :: "string \<Rightarrow> string" where
  "trimSpace s = rev (dropWhile isSpace (rev (dropWhile isSpace s)))"

definition kind_of :: "string \<Rightarrow> json_kind" where
  "kind_of data =
     (case trimSpace data of
        [] \<Rightarrow> JNull
      | c # _ \<Rightarrow>
          if c = CHR ''{'' then JObject
          else if c = CHR ''['' then JArray
          else if c = CHR 0x22 then JString
          else if c = CHR ''n'' then JNull
          else if c = CHR ''t'' \<or> c = CHR ''f'' then JBool
          else JNumber)"

datatype json_error = SyntaxError | UnmarshalTypeError | InvalidNumber | ParseError

subsection \<open>String literals\<close>

definition hexval :: "char \<Rightarrow> nat option" where
  "hexval c =
     (let n = of_char c :: nat
      in if 48 \<le> n \<and> n \<le> 57 then Some (n - 48)
         else if 97 \<le> n \<and> n \<le> 102 then Some (n - 97 + 10)
         else if 65 \<le> n \<and> n \<le> 70 then Some (n - 65 + 10)
         else None)"

text \<open>\<^verbatim>\<open>getu4\<close>: the code unit of a \<^verbatim>\<open>\uXXXX\<close> at the head of the text, if there is one.\<close>

definition getu4 :: "string \<Rightarrow> nat option" where
  "getu4 s =
     (case s of
        b # u # h1 # h2 # h3 # h4 # _ \<Rightarrow>
          if b = CHR 0x5C \<and> u = CHR ''u'' then
            (case (hexval h1, hexval h2, hexval h3, hexval h4) of
               (Some a, Some b, Some c, Some d) \<Rightarrow> Some (((a * 16 + b) * 16 + c) * 16 + d)
             | _ \<Rightarrow> None)
          else None
      | _ \<Rightarrow> None)"

definition RuneError :: nat where
  "RuneError = 0xFFFD"

definition IsSurrogate :: "nat \<Rightarrow> bool" where
  "IsSurrogate r \<longleftrightarrow> 0xD800 \<le> r \<and> r < 0xE000"

text \<open>\<^verbatim>\<open>utf16.DecodeRune\<close>: the code point of a surrogate pair, or the replacement rune.\<close>

definition utf16_DecodeRune :: "nat \<Rightarrow> nat option \<Rightarrow> nat" where
  "utf16_DecodeRune r1 r2 =
     (case r2 of
        None \<Rightarrow> RuneError
      | Some r2 \<Rightarrow>
          if 0xD800 \<le> r1 \<and> r1 < 0xDC00 \<and> 0xDC00 \<le> r2 \<and> r2 < 0xE000
          then (r1 - 0xD800) * 0x400 + (r2 - 0xDC00) + 0x10000
          else RuneError)"

text \<open>\<^verbatim>\<open>utf8.EncodeRune\<close>.\<close>

definition EncodeRune :: "nat \<Rightarrow> string" where
  "EncodeRune r =
     (if r < 0x80 then [char_of r]
      else if r < 0x800 then [char_of (0xC0 + r div 0x40), char_of (0x80 + r mod 0x40)]
      else if IsSurrogate r \<or> 0x10FFFF < r then [CHR 0xEF, CHR 0xBF, CHR 0xBD]
      else if r < 0x10000 then
        [char_of (0xE0 + r div 0x1000), char_of (0x80 + r div 0x40 mod 0x40),
         char_of (0x80 + r mod 0x40)]
      else
        [char_of (0xF0 + r div 0x40000), char_of (0x80 + r div 0x1000 mod 0x40),
         char_of (0x80 + r div 0x40 mod 0x40), char_of (0x80 + r mod 0x40)])"

text \<open>
  \<^verbatim>\<open>utf8.DecodeRune\<close> on a first byte of \<open>0x80\<close> or more: the number of continuation
  bytes of the well-formed encoding that starts there, if one does.
\<close>

definition cont :: "nat \<Rightarrow> nat \<Rightarrow> string \<Rightarrow> bool" where
  "cont lo hi s \<longleftrightarrow> (case s of c # _ \<Rightarrow> lo \<le> (of_char c :: nat) \<and> (of_char c :: nat) \<le> hi
                              | [] \<Rightarrow> False)"

definition utf8_tail :: "char \<Rightarrow> string \<Rightarrow> nat option" where
  "utf8_tail c s =
     (let b = of_char c :: nat;
          two = (\<lambda>lo hi. if cont lo hi s \<and> cont 0x80 0xBF (drop 1 s) then Some 2 else None);
          three = (\<lambda>lo hi. if cont lo hi s \<and> cont 0x80 0xBF (drop 1 s) \<and>
                              cont 0x80 0xBF (drop 2 s) then Some 3 else None)
      in if 0xC2 \<le> b \<and> b \<le> 0xDF then (if cont 0x80 0xBF s then Some 1 else None)
         else if b = 0xE0 then two 0xA0 0xBF
         else if b = 0xED then two 0x80 0x9F
         else if 0xE1 \<le> b \<and> b \<le> 0xEF then two 0x80 0xBF
         else if b = 0xF0 then three 0x90 0xBF
         else if 0xF1 \<le> b \<and> b \<le> 0xF3 then three 0x80 0xBF
         else if b = 0xF4 then three 0x80 0x8F
         else None)"

definition escape :: "char \<Rightarrow> char" where
  "escape e =
     (if e = CHR ''b'' then CHR 0x08
      else if e = CHR ''f'' then CHR 0x0C
      else if e = CHR ''n'' then CHR 0x0A
      else if e = CHR ''r'' then CHR 0x0D
      else if e = CHR ''t'' then CHR 0x09
      else e)"

text \<open>
  \<^verbatim>\<open>unquoteBytes\<close> on the inside of a valid string literal: escapes are replaced, a
  lone surrogate escape and an ill-formed byte become the replacement rune.
\<close>

fun unquoteBody :: "string \<Rightarrow> string" where
  "unquoteBody [] = []"
| "unquoteBody [c] = (if (of_char c :: nat) < 0x80 then [c] else EncodeRune RuneError)"
| "unquoteBody (c # e # s) =
     (if c = CHR 0x5C then
        (if e = CHR ''u'' then
           (case getu4 (c # e # s) of
              None \<Rightarrow> []
            | Some rr \<Rightarrow>
                if IsSurrogate rr then
                  (let dec = utf16_DecodeRune rr (getu4 (drop 4 s))
                   in if dec \<noteq> RuneError then EncodeRune dec @ unquoteBody (drop 10 s)
                      else EncodeRune RuneError @ unquoteBody (drop 4 s))
                else EncodeRune rr @ unquoteBody (drop 4 s))
         else escape e # unquoteBody s)
      else if (of_char c :: nat) < 0x80 then c # unquoteBody (e # s)
      else (case utf8_tail c (e # s) of
              Some k \<Rightarrow> c # take k (e # s) @ unquoteBody (drop k (e # s))
            | None \<Rightarrow> EncodeRune RuneError @ unquoteBody (e # s)))"

definition unquote :: "string \<Rightarrow> string" where
  "unquote lit = unquoteBody (butlast (tl lit))"


subsection \<open>Objects\<close>

text \<open>
  The members of a valid object. \<open>split_top\<close> cuts a text at each separator that is
  outside every string literal and every nested object or array (tracking the nesting
  depth, whether it is inside a literal and whether the last byte was a backslash), so
  that the inside of a valid object falls into its members and a member into its key
  and its value. The value is kept as it is written, without the white space around it
  (\<^verbatim>\<open>json.RawMessage\<close>); the key is decoded.
\<close>

fun split_top :: "nat \<Rightarrow> bool \<Rightarrow> bool \<Rightarrow> char \<Rightarrow> string \<Rightarrow> string \<Rightarrow> string list" where
  "split_top d q e sep acc [] = [rev acc]"
| "split_top d q e sep acc (c # cs) =
     (if q then
        (if e then split_top d True False sep (c # acc) cs
         else if c = CHR 0x5C then split_top d True True sep (c # acc) cs
         else if c = CHR 0x22 then split_top d False False sep (c # acc) cs
         else split_top d True False sep (c # acc) cs)
      else if c = CHR 0x22 then split_top d True False sep (c # acc) cs
      else if c = CHR ''{'' \<or> c = CHR ''['' then split_top (Suc d) False False sep (c # acc) cs
      else if c = CHR ''}'' \<or> c = CHR '']'' then split_top (d - 1) False False sep (c # acc) cs
      else if c = sep \<and> d = 0 then rev acc # split_top 0 False False sep [] cs
      else split_top d False False sep (c # acc) cs)"

definition member :: "string \<Rightarrow> string \<times> string" where
  "member m =
     (case split_top 0 False False (CHR '':'') [] m of
        k # v # _ \<Rightarrow> (unquote (trimSpace k), trimSpace v)
      | _ \<Rightarrow> ([], []))"

definition object_members :: "string \<Rightarrow> (string \<times> string) list" where
  "object_members data =
     (let body = butlast (tl (trimSpace data))
      in if trimSpace body = [] then []
         else map member (split_top 0 False False (CHR '','') [] body))"

text \<open>
  \<^verbatim>\<open>json.Unmarshal(data, &raw)\<close> for \<^verbatim>\<open>raw map[string]json.RawMessage\<close>. An object fills
  the map, a later occurrence of a key replacing an earlier one; \<^verbatim>\<open>null\<close> leaves the
  nil map and is no error; any other value is a type error. The map is kept as a list
  of pairs with distinct keys.
\<close>

type_synonym raw_map = "(string \<times> string) list"

fun assign :: "string \<Rightarrow> string \<Rightarrow> raw_map \<Rightarrow> raw_map" where
  "assign k v [] = [(k, v)]"
| "assign k v ((k', v') # m) = (if k = k' then (k, v) # m else (k', v') # assign k v m)"

definition Unmarshal_map :: "string \<Rightarrow> json_error + raw_map" where
  "Unmarshal_map data =
     (if \<not> checkValid data then Inl SyntaxError
      else (case kind_of data of
        JObject \<Rightarrow> Inr (foldl (\<lambda>m (k, v). assign k v m) [] (object_members data))
      | JNull \<Rightarrow> Inr []
      | _ \<Rightarrow> Inl UnmarshalTypeError))"

text \<open>
  \<^verbatim>\<open>json.Unmarshal(data, &str)\<close> for a Go string holding \<open>cur\<close>: a string literal is
  decoded, \<^verbatim>\<open>null\<close> leaves the variable as it is and is no error, any other value is a
  type error.
\<close>

definition Unmarshal_string :: "string \<Rightarrow> string \<Rightarrow> json_error + string" where
  "Unmarshal_string data cur =
     (if \<not> checkValid data then Inl SyntaxError
      else (case kind_of data of
        JString \<Rightarrow> Inr (unquote (trimSpace data))
      | JNull \<Rightarrow> Inr cur
      | _ \<Rightarrow> Inl UnmarshalTypeError))"

text \<open>
  \<^verbatim>\<open>json.Unmarshal(data, &num)\<close> for a \<^verbatim>\<open>json.Number\<close>: a number is kept as it is written;
  a string literal is accepted if its content is written like a number.
\<close>

definition isValidNumber :: "string \<Rightarrow> bool" where
  "isValidNumber s \<longleftrightarrow>
     s \<noteq> [] \<and> \<not> isSpace (hd s) \<and> \<not> isSpace (last s) \<and> checkValid s \<and> kind_of s = JNumber"

definition Unmarshal_Number :: "string \<Rightarrow> string \<Rightarrow> json_error + string" where
  "Unmarshal_Number data cur =
     (if \<not> checkValid data then Inl SyntaxError
      else (case kind_of data of
        JNumber \<Rightarrow> Inr (trimSpace data)
      | JString \<Rightarrow>
          (let t = unquote (trimSpace data)
           in if isValidNumber t then Inr t else Inl InvalidNumber)
      | JNull \<Rightarrow> Inr cur
      | _ \<Rightarrow> Inl UnmarshalTypeError))"

text \<open>
  \<^verbatim>\<open>json.Unmarshal(data, &n)\<close> for a Go \<^verbatim>\<open>int\<close> (64 bits): the number must be written as
  an integer (\<^verbatim>\<open>strconv.ParseInt\<close>) and fit.
\<close>

definition digits_value :: "string \<Rightarrow> int" where
  "digits_value ds = foldl (\<lambda>n c. n * 10 + (int (of_char c) - 48)) 0 ds"

definition ParseInt :: "string \<Rightarrow> int option" where
  "ParseInt s =
     (let (neg, ds) = (case s of c # r \<Rightarrow> if c = CHR ''-'' then (True, r)
                                          else if c = CHR ''+'' then (False, r)
                                          else (False, s)
                               | [] \<Rightarrow> (False, []))
      in if ds = [] \<or> \<not> list_all isDigit ds then None
         else (let n = (if neg then - digits_value ds else digits_value ds)
               in if - (2 ^ 63) \<le> n \<and> n < 2 ^ 63 then Some n else None))"

definition Unmarshal_int :: "string \<Rightarrow> int \<Rightarrow> json_error + int" where
  "Unmarshal_int data cur =
     (if \<not> checkValid data then Inl SyntaxError
      else (case kind_of data of
        JNumber \<Rightarrow> (case ParseInt (trimSpace data) of Some n \<Rightarrow> Inr n
                                                     | None \<Rightarrow> Inl UnmarshalTypeError)
      | JNull \<Rightarrow> Inr cur
      | _ \<Rightarrow> Inl UnmarshalTypeError))"


subsection \<open>Timestamps\<close>

text \<open>
  \<^verbatim>\<open>time.Time.UnmarshalJSON\<close> takes \<^verbatim>\<open>null\<close> as "no change", refuses whatever is not
  written between double quotes, and reads the text between the quotes as an RFC 3339
  timestamp (\<^verbatim>\<open>parseRFC3339\<close>): \<^verbatim>\<open>2006-01-02T15:04:05\<close>, an optional fraction of a
  second, and \<^verbatim>\<open>Z\<close> or an offset \<^verbatim>\<open>+07:00\<close>. A text that \<^verbatim>\<open>parseRFC3339\<close> refuses is a
  decode error here.
\<close>

definition parseUint :: "string \<Rightarrow> int \<Rightarrow> int \<Rightarrow> int option" where
  "parseUint s lo hi =
     (if list_all isDigit s \<and> lo \<le> digits_value s \<and> digits_value s \<le> hi
      then Some (digits_value s) else None)"

definition isLeap :: "int \<Rightarrow> bool" where
  "isLeap year \<longleftrightarrow> year mod 4 = 0 \<and> (year mod 100 \<noteq> 0 \<or> year mod 400 = 0)"

definition daysIn :: "int \<Rightarrow> int \<Rightarrow> int" where
  "daysIn month year =
     (if month = 2 then (if isLeap year then 29 else 28)
      else if month = 4 \<or> month = 6 \<or> month = 9 \<or> month = 11 then 30
      else 31)"

text \<open>Days from January 1, 1970 to a day of the proleptic Gregorian calendar.\<close>

definition days_from_civil :: "int \<Rightarrow> int \<Rightarrow> int \<Rightarrow> int" where
  "days_from_civil year month day =
     (let y = (if month \<le> 2 then year - 1 else year);
          era = y div 400;
          yoe = y - era * 400;
          mp = (if month > 2 then month - 3 else month + 9);
          doy = (153 * mp + 2) div 5 + day - 1;
          doe = yoe * 365 + yoe div 4 - yoe div 100 + doy
      in era * 146097 + doe - 719468)"

text \<open>\<^verbatim>\<open>time.Date(year, month, day, hour, min, sec, nsec, time.UTC)\<close> for fields in range.\<close>

definition Date :: "int \<Rightarrow> int \<Rightarrow> int \<Rightarrow> int \<Rightarrow> int \<Rightarrow> int \<Rightarrow> int \<Rightarrow> Time" where
  "Date year month day hour minute second ns =
     \<lparr>sec = days_from_civil year month day * 86400 + hour * 3600 + minute * 60 + second,
      nsec = ns\<rparr>"

text \<open>
  \<^verbatim>\<open>parseNanoseconds\<close> on a period and the digits behind it: digits beyond the ninth are
  dropped.
\<close>

definition parseNanoseconds :: "string \<Rightarrow> int" where
  "parseNanoseconds frac =
     (let ds = take 9 (tl frac)
      in digits_value ds * 10 ^ (9 - length ds))"

definition parseRFC3339 :: "string \<Rightarrow> Time option" where
  "parseRFC3339 s =
     (if length s < 19 then None
      else
        Option.bind (parseUint (take 4 s) 0 9999) (\<lambda>year.
        Option.bind (parseUint (take 2 (drop 5 s)) 1 12) (\<lambda>month.
        Option.bind (parseUint (take 2 (drop 8 s)) 1 (daysIn month year)) (\<lambda>day.
        Option.bind (parseUint (take 2 (drop 11 s)) 0 23) (\<lambda>hour.
        Option.bind (parseUint (take 2 (drop 14 s)) 0 59) (\<lambda>minute.
        Option.bind (parseUint (take 2 (drop 17 s)) 0 59) (\<lambda>second.
        if \<not> (s ! 4 = CHR ''-'' \<and> s ! 7 = CHR ''-'' \<and> s ! 10 = CHR ''T'' \<and>
                s ! 13 = CHR '':'' \<and> s ! 16 = CHR '':'') then None
        else
          (let r = drop 19 s;
               n = (if length r \<ge> 2 \<and> r ! 0 = CHR ''.'' \<and> isDigit (r ! 1)
                    then Suc (length (takeWhile isDigit (tl r))) else 0);
               ns = (if n = 0 then 0 else parseNanoseconds (take n r));
               z = drop n r;
               t = Date year month day hour minute second ns
           in if z = ''Z'' then Some t
              else if length z \<noteq> 6 then None
              else
                Option.bind (parseUint (take 2 (drop 1 z)) 0 23) (\<lambda>hr.
                Option.bind (parseUint (take 2 (drop 4 z)) 0 59) (\<lambda>mm.
                if \<not> ((z ! 0 = CHR ''-'' \<or> z ! 0 = CHR ''+'') \<and> z ! 3 = CHR '':'') then None
                else
                  (let zoneOffset = (hr * 60 + mm) * 60;
                       zoneOffset = (if z ! 0 = CHR ''-'' then - zoneOffset else zoneOffset)
                   in Some (t\<lparr>sec := sec t - zoneOffset\<rparr>))))))))))))"

definition Time_UnmarshalJSON :: "string \<Rightarrow> Time \<Rightarrow> json_error + Time" where
  "Time_UnmarshalJSON data cur =
     (if data = ''null'' then Inr cur
      else if length data < 2 \<or> hd data \<noteq> CHR 0x22 \<or> last data \<noteq> CHR 0x22 then Inl ParseError
      else (case parseRFC3339 (butlast (tl data)) of
              Some t \<Rightarrow> Inr t
            | None \<Rightarrow> Inl ParseError))"

text \<open>\<^verbatim>\<open>json.Unmarshal(timeData, &s.Time)\<close>: the value goes to the method above.\<close>

definition Unmarshal_Time :: "string \<Rightarrow> Time \<Rightarrow> json_error + Time" where
  "Unmarshal_Time data cur =
     (if \<not> checkValid data then Inl SyntaxError
      else Time_UnmarshalJSON (trimSpace data) cur)"

subsection \<open>Severity\<close>

text \<open>
  Modelled from the spec: the declaration of \<^verbatim>\<open>ecslogs.Level\<close> and its decoder belong to
  the package \<^verbatim>\<open>github.com/segmentio/ecs-logs-go\<close> and are not among the sources. The
  severity is written as a JSON string holding the name of a level, matched without
  regard to case; any other value, and any other name, fails to decode.
\<close>

definition toUpper :: "char \<Rightarrow> char" where
  "toUpper c =
     (let n = of_char c :: nat in if 97 \<le> n \<and> n \<le> 122 then char_of (n - 32) else c)"

definition ParseLevel :: "string \<Rightarrow> Level option" where
  "ParseLevel s =
     (let u = map toUpper s
      in if u = ''EMERGENCY'' then Some EMERGENCY
         else if u = ''ALERT'' then Some ALERT
         else if u = ''CRITICAL'' then Some CRITICAL
         else if u = ''ERROR'' then Some ERROR
         else if u = ''WARNING'' then Some WARNING
         else if u = ''NOTICE'' then Some NOTICE
         else if u = ''INFO'' then Some INFO
         else if u = ''DEBUG'' then Some DEBUG
         else if u = ''TRACE'' then Some TRACE
         else None)"

definition Unmarshal_Level :: "string \<Rightarrow> Level \<Rightarrow> json_error + Level" where
  "Unmarshal_Level data cur =
     (if \<not> checkValid data then Inl SyntaxError
      else (case kind_of data of
        JString \<Rightarrow> (case ParseLevel (unquote (trimSpace data)) of
                      Some l \<Rightarrow> Inr l
                    | None \<Rightarrow> Inl ParseError)
      | _ \<Rightarrow> Inl UnmarshalTypeError))"

subsection \<open>Source location\<close>

text \<open>
  \<^verbatim>\<open>json.Unmarshal(sourceData, &s.Source)\<close> for the struct \<^verbatim>\<open>SourceInfo\<close>: the members of
  an object are taken in turn, a key naming a field (without regard to case) decodes
  its value into the field, other keys are skipped; \<^verbatim>\<open>null\<close> changes nothing; any other
  value, and a member that does not fit its field, is a type error.
\<close>

definition toLower :: "char \<Rightarrow> char" where
  "toLower c =
     (let n = of_char c :: nat in if 65 \<le> n \<and> n \<le> 90 then char_of (n + 32) else c)"

fun sum_bind :: "'e + 'a \<Rightarrow> ('a \<Rightarrow> 'e + 'b) \<Rightarrow> 'e + 'b" where
  "sum_bind (Inl e) f = Inl e"
| "sum_bind (Inr x) f = f x"

fun Unmarshal_fields :: "(string \<times> string) list \<Rightarrow> SourceInfo \<Rightarrow> json_error + SourceInfo" where
  "Unmarshal_fields [] cur = Inr cur"
| "Unmarshal_fields ((k, v) # ms) cur =
     (let f = map toLower k
      in if f = ''function'' then
           sum_bind (Unmarshal_string v (Function cur))
             (\<lambda>x. Unmarshal_fields ms (cur\<lparr>Function := x\<rparr>))
         else if f = ''file'' then
           sum_bind (Unmarshal_string v (File cur))
             (\<lambda>x. Unmarshal_fields ms (cur\<lparr>File := x\<rparr>))
         else if f = ''line'' then
           sum_bind (Unmarshal_int v (Line cur))
             (\<lambda>x. Unmarshal_fields ms (cur\<lparr>Line := x\<rparr>))
         else Unmarshal_fields ms cur)"

definition Unmarshal_SourceInfo :: "string \<Rightarrow> SourceInfo \<Rightarrow> json_error + SourceInfo" where
  "Unmarshal_SourceInfo data cur =
     (if \<not> checkValid data then Inl SyntaxError
      else (case kind_of data of
        JObject \<Rightarrow> Unmarshal_fields (object_members data) cur
      | JNull \<Rightarrow> Inr cur
      | _ \<Rightarrow> Inl UnmarshalTypeError))"


section \<open>The record parser: \<^verbatim>\<open>SlogEvent.UnmarshalJSON\<close>\<close>

definition staticFields :: "string list" where
  "staticFields = [''level'', ''time'', ''source'', ''msg'']"

text \<open>
  The body of the loop over the remaining keys: the value is tried as a string, then
  as a number, and is kept as it is written if both fail. The variables \<^verbatim>\<open>str\<close> and
  \<^verbatim>\<open>num\<close> are fresh (empty) in every round.
\<close>

definition payload_text :: "string \<Rightarrow> string" where
  "payload_text v =
     (case Unmarshal_string v [] of
        Inr str \<Rightarrow> str
      | Inl _ \<Rightarrow>
          (case Unmarshal_Number v [] of
             Inr num \<Rightarrow> num
           | Inl _ \<Rightarrow> v))"

text \<open>
  \<^verbatim>\<open>for key, value := range raw\<close>. Go visits the keys of a map in no fixed order, each
  once; the list is walked in its own order.
\<close>

fun range_raw :: "raw_map \<Rightarrow> (string \<rightharpoonup> string) \<Rightarrow> (string \<rightharpoonup> string)" where
  "range_raw [] d = d"
| "range_raw ((k, v) # r) d =
     range_raw r (if k \<notin> set staticFields then d(k \<mapsto> payload_text v) else d)"

text \<open>
  The method works on the receiver \<open>s\<close> and returns an error or the receiver as it has
  left it. A reserved key that is present decodes into its field or ends the method
  with the error; a reserved key that is absent leaves the field as it was.
\<close>

definition UnmarshalJSON :: "string \<Rightarrow> SlogEvent \<Rightarrow> json_error + SlogEvent" where
  "UnmarshalJSON data s =
     sum_bind (Unmarshal_map data) (\<lambda>raw.
     sum_bind (case map_of raw ''level'' of
                 Some levelData \<Rightarrow> Unmarshal_Level levelData (Level s)
               | None \<Rightarrow> Inr (Level s)) (\<lambda>lv.
     sum_bind (case map_of raw ''time'' of
                 Some timeData \<Rightarrow> Unmarshal_Time timeData (Time s)
               | None \<Rightarrow> Inr (Time s)) (\<lambda>t.
     sum_bind (case map_of raw ''source'' of
                 Some sourceData \<Rightarrow> Unmarshal_SourceInfo sourceData (Source s)
               | None \<Rightarrow> Inr (Source s)) (\<lambda>src.
     sum_bind (case map_of raw ''msg'' of
                 Some msgData \<Rightarrow> Unmarshal_string msgData (Message s)
               | None \<Rightarrow> Inr (Message s)) (\<lambda>m.
     Inr (s\<lparr>Level := lv, Time := t, Source := src, Message := m,
            Data := range_raw raw Map.empty\<rparr>))))))"

text \<open>
  \<^verbatim>\<open>json.Unmarshal(data, &ecsLogsEvent)\<close>: after the validity check the one value of the
  input, whatever its kind, is handed to the \<^verbatim>\<open>UnmarshalJSON\<close> method of the target.
\<close>

definition Unmarshal_SlogEvent :: "string \<Rightarrow> SlogEvent \<Rightarrow> json_error + SlogEvent" where
  "Unmarshal_SlogEvent data s =
     (if \<not> checkValid data then Inl SyntaxError else UnmarshalJSON (trimSpace data) s)"

section \<open>Event construction: \<^verbatim>\<open>NewEvent\<close>\<close>

text \<open>
  The first statement of \<^verbatim>\<open>NewEvent\<close>: the message is decoded into a zero \<^verbatim>\<open>SlogEvent\<close>,
  and on an error the variable is overwritten with the level \<^verbatim>\<open>INFO\<close> and the message.
\<close>

definition fallback :: "string \<Rightarrow> SlogEvent" where
  "fallback msg = SlogEvent_zero\<lparr>Level := INFO, Message := msg\<rparr>"

definition parse :: "string \<Rightarrow> SlogEvent" where
  "parse msg =
     (case Unmarshal_SlogEvent msg SlogEvent_zero of
        Inl err \<Rightarrow> fallback msg
      | Inr ecsLogsEvent \<Rightarrow> ecsLogsEvent)"

text \<open>The second statement: a zero time is replaced by the time of the log service.\<close>

definition resolve_time :: "SlogEvent \<Rightarrow> int option \<Rightarrow> SlogEvent" where
  "resolve_time ecsLogsEvent ts =
     (if IsZero (Time ecsLogsEvent) then ecsLogsEvent\<lparr>Time := ParseAWSTimestamp ts\<rparr>
      else ecsLogsEvent)"

text \<open>
  \<^verbatim>\<open>NewEvent\<close> dereferences \<^verbatim>\<open>cwEvent.Message\<close>, \<^verbatim>\<open>cwEvent.LogStreamName\<close> and
  \<^verbatim>\<open>cwEvent.EventId\<close> without a check, in this order; the two timestamps go through
  \<^verbatim>\<open>ParseAWSTimestamp\<close>, which checks for \<^verbatim>\<open>nil\<close>.
\<close>

definition NewEvent :: "FilteredLogEvent \<Rightarrow> string \<Rightarrow> panic + Event" where
  "NewEvent cwEvent grp =
     (case Message_cw cwEvent of
        None \<Rightarrow> Inl NilDereference
      | Some msg \<Rightarrow>
          (let ecsLogsEvent = resolve_time (parse msg) (Timestamp cwEvent)
           in case LogStreamName cwEvent of
                None \<Rightarrow> Inl NilDereference
              | Some stream \<Rightarrow>
                  (case EventId cwEvent of
                     None \<Rightarrow> Inl NilDereference
                   | Some ident \<Rightarrow>
                       Inr \<lparr>Level = Level ecsLogsEvent, Time = Time ecsLogsEvent,
                            Source = Source ecsLogsEvent, Message = Message ecsLogsEvent,
                            Data = Data ecsLogsEvent,
                            Stream = stream, Group = grp, ID = ident,
                            IngestTime = ParseAWSTimestamp (IngestionTime cwEvent),
                            CreationTime = ParseAWSTimestamp (Timestamp cwEvent)\<rparr>)))"

section \<open>The specification's reading of the stream pattern\<close>

text \<open>
  The specification describes the stream pattern as groups of hexadecimal digits. This
  is that reading, written like \<open>TaskUUIDPattern\<close> with hexadecimal digits in place of
  \<^verbatim>\<open>[[:alnum:]]\<close>.
\<close>

definition hexdigit :: "char \<Rightarrow> bool" where
  "hexdigit c \<longleftrightarrow>
     (let n = of_char c :: nat
      in (48 \<le> n \<and> n \<le> 57) \<or> (65 \<le> n \<and> n \<le> 70) \<or> (97 \<le> n \<and> n \<le> 102))"

fun hex_group :: "nat \<Rightarrow> string \<Rightarrow> string option" where
  "hex_group 0 s = Some s"
| "hex_group (Suc n) [] = None"
| "hex_group (Suc n) (c # s) = (if hexdigit c then hex_group n s else None)"

definition hex_uuid :: "string \<Rightarrow> bool" where
  "hex_uuid s =
     (Option.bind (hex_group 8 s) (\<lambda>s.
      Option.bind (hyphen s) (\<lambda>s.
      Option.bind (hex_group 4 s) (\<lambda>s.
      Option.bind (hyphen s) (\<lambda>s.
      Option.bind (hex_group 4 s) (\<lambda>s.
      Option.bind (hyphen s) (\<lambda>s.
      Option.bind (hex_group 4 s) (\<lambda>s.
      Option.bind (hyphen s) (\<lambda>s.
      hex_group 12 s)))))))) = Some [])"

section \<open>Sample values\<close>

text \<open>An event of the given stream and creation time (in milliseconds), nothing else set.\<close>

definition sample_event :: "string \<Rightarrow> int \<Rightarrow> Event" where
  "sample_event s ms =
     \<lparr>Level = INFO, Time = ParseAWSTimestamp (Some ms), Source = SourceInfo_zero,
      Message = [], Data = Map.empty,
      Stream = s, Group = [], ID = [], IngestTime = ParseAWSTimestamp None,
      CreationTime = ParseAWSTimestamp (Some ms)\<rparr>"

section \<open>Notions used in the proofs\<close>

text \<open>
  After a white space the scanner is at the end of the input value or in a state that
  white space does not lead out of.
\<close>

definition idle :: "scanner \<Rightarrow> bool" where
  "idle \<sigma> \<longleftrightarrow>
     fst \<sigma> \<in> {BeginValue, BeginValueOrEmpty, BeginStringOrEmpty, BeginString, InString,
              ScanError} \<or>
     (fst \<sigma> = EndValue \<and> snd \<sigma> \<noteq> [])"

section \<open>Properties of the time conversion\<close>

lemma sdiv_billion:
  "(k::int) sdiv 1000000000 = k div 1000000000 + of_bool (k < 0 \<and> \<not> 1000000000 dvd k)"
  by (auto simp: signed_divide_int_eq_divide_int sgn_if)

lemma sdiv_thousand:
  "(k::int) sdiv 1000 = k div 1000 + of_bool (k < 0 \<and> \<not> 1000 dvd k)"
  by (auto simp: signed_divide_int_eq_divide_int sgn_if)

lemma smod_thousand:
  "(k::int) smod 1000 = k mod 1000 - 1000 * of_bool (k < 0 \<and> \<not> 1000 dvd k)"
  by (auto simp: signed_modulo_int_eq_modulo_int sgn_if)

text \<open>\<^verbatim>\<open>time.Unix\<close> carries whole seconds out of the nanoseconds, rounding down.\<close>

lemma Unix_carry:
  "(let n = (ns::int) sdiv 1000000000; s1 = s + n; ns1 = ns - n * 1000000000
    in if ns1 < 0 then \<lparr>sec = s1 - 1, nsec = ns1 + 1000000000\<rparr> else \<lparr>sec = s1, nsec = ns1\<rparr>) =
   \<lparr>sec = s + ns div 1000000000, nsec = ns mod 1000000000\<rparr>"
proof -
  define q r where "q = ns div 1000000000" and "r = ns mod 1000000000"
  have ns: "ns = q * 1000000000 + r" and r: "0 \<le> r" "r < 1000000000"
    by (simp_all add: q_def r_def)
  show ?thesis
  proof (cases "ns < 0 \<and> \<not> 1000000000 dvd ns")
    case True
    then have n: "ns sdiv 1000000000 = q + 1" by (simp add: sdiv_billion q_def)
    have "ns - (q + 1) * 1000000000 = r - 1000000000" using ns by (simp add: algebra_simps)
    with n r show ?thesis by (simp add: Let_def q_def [symmetric] r_def [symmetric])
  next
    case False
    then have n: "ns sdiv 1000000000 = q" by (auto simp add: sdiv_billion q_def)
    have "ns - q * 1000000000 = r" using ns by simp
    with n r show ?thesis by (simp add: Let_def q_def [symmetric] r_def [symmetric])
  qed
qed

lemma Unix_floor: "Unix s ns = \<lparr>sec = s + ns div 1000000000, nsec = ns mod 1000000000\<rparr>"
proof (cases "ns < 0 \<or> ns \<ge> 1000000000")
  case True
  then show ?thesis unfolding Unix_def using Unix_carry [of ns s] by simp
next
  case False
  then show ?thesis by (simp add: Unix_def)
qed

lemma smod_thousand_div:
  "((ms::int) smod 1000) * 1000000 div 1000000000 = - of_bool (ms < 0 \<and> \<not> 1000 dvd ms)"
proof -
  define r where "r = ms mod 1000"
  have r: "0 \<le> r" "r < 1000" by (simp_all add: r_def)
  have dv: "1000 dvd ms \<longleftrightarrow> r = 0" by (simp add: r_def dvd_eq_mod_eq_0)
  show ?thesis
  proof (cases "ms < 0 \<and> \<not> 1000 dvd ms")
    case True
    then have "ms smod 1000 = r - 1000" by (simp add: smod_thousand r_def)
    moreover have "(r - 1000) * 1000000 div 1000000000 = -1"
      using r True dv by (intro int_div_pos_eq [where r = "r * 1000000"]) auto
    ultimately show ?thesis using True by simp
  next
    case False
    then have "ms smod 1000 = r" by (auto simp add: smod_thousand r_def)
    moreover have "r * 1000000 div 1000000000 = 0" using r by simp
    ultimately show ?thesis using False by auto
  qed
qed

lemma smod_thousand_mod:
  "((ms::int) smod 1000) * 1000000 mod 1000000000 = (ms mod 1000) * 1000000"
proof -
  define r where "r = ms mod 1000"
  have r: "0 \<le> r" "r < 1000" by (simp_all add: r_def)
  have dv: "1000 dvd ms \<longleftrightarrow> r = 0" by (simp add: r_def dvd_eq_mod_eq_0)
  show ?thesis
  proof (cases "ms < 0 \<and> \<not> 1000 dvd ms")
    case True
    then have "ms smod 1000 = r - 1000" by (simp add: smod_thousand r_def)
    moreover have "(r - 1000) * 1000000 mod 1000000000 = r * 1000000"
      using r True dv by (intro int_mod_pos_eq [where q = "-1"]) auto
    ultimately show ?thesis using True by (simp add: r_def)
  next
    case False
    then have "ms smod 1000 = r" by (auto simp add: smod_thousand r_def)
    moreover have "r * 1000000 mod 1000000000 = r * 1000000" using r by simp
    ultimately show ?thesis using False by (auto simp: r_def)
  qed
qed

lemma ParseAWSTimestamp_Some:
  "ParseAWSTimestamp (Some ms) = \<lparr>sec = ms div 1000, nsec = (ms mod 1000) * 1000000\<rparr>"
  by (simp add: ParseAWSTimestamp_def Unix_floor smod_thousand_div smod_thousand_mod
      sdiv_thousand)

lemma ParseAWSTimestamp_None: "ParseAWSTimestamp None = \<lparr>sec = 0, nsec = 0\<rparr>"
  by (simp add: ParseAWSTimestamp_def Unix_def)

section \<open>Properties of the short stream identifier\<close>

lemma alnum_group_iff:
  "alnum_group n s = Some r \<longleftrightarrow> (\<exists>g. s = g @ r \<and> length g = n \<and> list_all alnum g)"
proof (induction n s rule: alnum_group.induct)
  case (1 s)
  then show ?case by simp
next
  case (2 n)
  then show ?case by simp
next
  case (3 n c s)
  show ?case
  proof (cases "alnum c")
    case True
    have "(\<exists>g. c # s = g @ r \<and> length g = Suc n \<and> list_all alnum g)
          \<longleftrightarrow> (\<exists>g'. s = g' @ r \<and> length g' = n \<and> list_all alnum g')"
      (is "?L \<longleftrightarrow> ?R")
    proof
      assume ?L
      then obtain g where g: "c # s = g @ r" "length g = Suc n" "list_all alnum g" by blast
      then obtain g' where "g = c # g'" by (cases g) auto
      with g show ?R by auto
    next
      assume ?R
      then obtain g' where "s = g' @ r" "length g' = n" "list_all alnum g'" by blast
      then have "c # s = (c # g') @ r \<and> length (c # g') = Suc n \<and> list_all alnum (c # g')"
        using True by simp
      then show ?L by blast
    qed
    with 3 True show ?thesis by simp
  next
    case False
    have "\<not> (\<exists>g. c # s = g @ r \<and> length g = Suc n \<and> list_all alnum g)"
    proof
      assume "\<exists>g. c # s = g @ r \<and> length g = Suc n \<and> list_all alnum g"
      then obtain g where g: "c # s = g @ r" "length g = Suc n" "list_all alnum g" by blast
      then obtain g' where "g = c # g'" by (cases g) auto
      with g False show False by simp
    qed
    with False show ?thesis by simp
  qed
qed

lemma hyphen_iff: "hyphen s = Some r \<longleftrightarrow> s = CHR ''-'' # r"
  by (auto simp: hyphen_def split: list.splits)

lemma bind_eq_Some_iff: "Option.bind m f = Some r \<longleftrightarrow> (\<exists>x. m = Some x \<and> f x = Some r)"
  by (cases m) auto

lemma TaskUUIDPattern_iff:
  "TaskUUIDPattern s \<longleftrightarrow>
     (\<exists>g1 g2 g3 g4 g5.
        s = g1 @ ''-'' @ g2 @ ''-'' @ g3 @ ''-'' @ g4 @ ''-'' @ g5 \<and>
        length g1 = 8 \<and> length g2 = 4 \<and> length g3 = 4 \<and> length g4 = 4 \<and> length g5 = 12 \<and>
        list_all alnum g1 \<and> list_all alnum g2 \<and> list_all alnum g3 \<and> list_all alnum g4 \<and>
        list_all alnum g5)"
  unfolding TaskUUIDPattern_def bind_eq_Some_iff alnum_group_iff hyphen_iff
  by (auto; blast)

lemma alnum_not_hyphen: "alnum c \<Longrightarrow> c \<noteq> CHR ''-''"
  by (auto simp: alnum_def)

lemma Split_hyphen_hd:
  "\<exists>ps. Split_hyphen s = takeWhile (\<lambda>c. c \<noteq> CHR ''-'') s # ps"
  by (induction s) (auto split: list.splits)

lemma TaskShort_eq:
  "TaskShort e =
     (if TaskUUIDPattern (Stream e) then takeWhile (\<lambda>c. c \<noteq> CHR ''-'') (Stream e)
      else Stream e)"
  using Split_hyphen_hd [of "Stream e"] by (auto simp: TaskShort_def)

lemma takeWhile_group:
  "list_all alnum g \<Longrightarrow> takeWhile (\<lambda>c. c \<noteq> CHR ''-'') (g @ CHR ''-'' # r) = g"
  by (induction g) (auto dest: alnum_not_hyphen)

lemma TaskUUIDPattern_take:
  assumes "TaskUUIDPattern s"
  shows "takeWhile (\<lambda>c. c \<noteq> CHR ''-'') s = take 8 s"
proof -
  from assms obtain g1 r where s: "s = g1 @ CHR ''-'' # r" and g: "length g1 = 8" "list_all alnum g1"
    unfolding TaskUUIDPattern_iff by auto
  then show ?thesis by (simp add: takeWhile_group)
qed

text \<open>
  C9, as the code has it. \<open>TaskShort\<close> returns the text before the first hyphen of the
  stream, which is its first eight characters, exactly when the stream is five groups
  of 8, 4, 4, 4 and 12 ASCII letters or digits (not only hexadecimal digits) joined by
  hyphens, and returns the stream unchanged otherwise. The stream
  \<open>12345678-aaaa-bbbb-cccc-123456789012\<close> shortens to \<open>12345678\<close> and \<open>worker-1\<close> is
  returned unchanged.
\<close>

theorem TaskShort_alnum_groups:
  "(TaskUUIDPattern (Stream e) \<longleftrightarrow>
      (\<exists>g1 g2 g3 g4 g5.
         Stream e = g1 @ ''-'' @ g2 @ ''-'' @ g3 @ ''-'' @ g4 @ ''-'' @ g5 \<and>
         length g1 = 8 \<and> length g2 = 4 \<and> length g3 = 4 \<and> length g4 = 4 \<and> length g5 = 12 \<and>
         list_all alnum g1 \<and> list_all alnum g2 \<and> list_all alnum g3 \<and> list_all alnum g4 \<and>
         list_all alnum g5)) \<and>
   TaskShort e =
     (if TaskUUIDPattern (Stream e) then takeWhile (\<lambda>c. c \<noteq> CHR ''-'') (Stream e)
      else Stream e) \<and>
   (TaskUUIDPattern (Stream e) \<longrightarrow> TaskShort e = take 8 (Stream e)) \<and>
   TaskShort (e\<lparr>Stream := ''12345678-aaaa-bbbb-cccc-123456789012''\<rparr>) = ''12345678'' \<and>
   TaskShort (e\<lparr>Stream := ''worker-1''\<rparr>) = ''worker-1''"
proof -
  have a: "TaskUUIDPattern ''12345678-aaaa-bbbb-cccc-123456789012''" by code_simp
  have b: "\<not> TaskUUIDPattern ''worker-1''" by code_simp
  have c: "takeWhile (\<lambda>c. c \<noteq> CHR ''-'') ''12345678-aaaa-bbbb-cccc-123456789012'' = ''12345678''"
    by simp
  show ?thesis
    using a b c TaskUUIDPattern_iff [of "Stream e"]
    by (simp add: TaskShort_eq TaskUUIDPattern_take)
qed

theorem TaskShort_alnum_groups_witness:
  "TaskUUIDPattern (Stream (sample_event ''0a1b2c3d-zzzz-0000-YYYY-0123456789ab'' 0)) \<and>
   TaskShort (sample_event ''0a1b2c3d-zzzz-0000-YYYY-0123456789ab'' 0) = ''0a1b2c3d''"
proof -
  have a: "TaskUUIDPattern (Stream (sample_event ''0a1b2c3d-zzzz-0000-YYYY-0123456789ab'' 0))"
    by code_simp
  have "TaskShort (sample_event ''0a1b2c3d-zzzz-0000-YYYY-0123456789ab'' 0) =
        take 8 (Stream (sample_event ''0a1b2c3d-zzzz-0000-YYYY-0123456789ab'' 0))"
    using TaskShort_alnum_groups [of "sample_event ''0a1b2c3d-zzzz-0000-YYYY-0123456789ab'' 0"] a
    by blast
  then show ?thesis using a by (simp add: sample_event_def)
qed

text \<open>
  C9, as the specification words it, fails: a stream of the right shape whose groups
  are letters beyond \<open>f\<close> is not a group of hexadecimal digits, and is shortened all the
  same.
\<close>

theorem TaskShort_hex_counterexample:
  "\<not> hex_uuid (Stream (sample_event ''gggggggg-gggg-gggg-gggg-gggggggggggg'' 0)) \<and>
   TaskShort (sample_event ''gggggggg-gggg-gggg-gggg-gggggggggggg'' 0) \<noteq>
     Stream (sample_event ''gggggggg-gggg-gggg-gggg-gggggggggggg'' 0)"
  by code_simp

section \<open>Properties of the ordering by creation time\<close>

lemma less_event_irrefl: "\<not> less_event a a"
  by (simp add: less_event_def Before_def)

lemma less_event_trans: "less_event a b \<Longrightarrow> less_event b c \<Longrightarrow> less_event a c"
  by (auto simp: less_event_def Before_def)

lemma less_event_asym: "\<not> less_event b a \<or> \<not> less_event a b"
  by (auto simp: less_event_def Before_def)

lemma not_less_event_trans: "\<not> less_event b a \<Longrightarrow> \<not> less_event c b \<Longrightarrow> \<not> less_event c a"
  by (auto simp: less_event_def Before_def)

lemma set_insort_event: "set (insort_event x ys) = insert x (set ys)"
  by (induction ys) auto

lemma mset_insort_event: "mset (insort_event x ys) = add_mset x (mset ys)"
  by (induction ys) auto

lemma sorted_insort_event:
  "sorted_wrt (\<lambda>a b. \<not> less_event b a) ys \<Longrightarrow>
   sorted_wrt (\<lambda>a b. \<not> less_event b a) (insort_event x ys)"
proof (induction ys)
  case Nil
  then show ?case by simp
next
  case (Cons y ys)
  show ?case
  proof (cases "less_event y x")
    case True
    then have "\<not> less_event x y" using less_event_asym [of x y] by blast
    with True Cons show ?thesis by (auto simp: set_insort_event)
  next
    case False
    with Cons.prems show ?thesis by (auto dest: not_less_event_trans [of y x])
  qed
qed

lemma filter_insort_event:
  "filter (\<lambda>e. CreationTime e = t) (insort_event x ys) =
     (if CreationTime x = t then x # filter (\<lambda>e. CreationTime e = t) ys
      else filter (\<lambda>e. CreationTime e = t) ys)"
proof (induction ys)
  case Nil
  then show ?case by simp
next
  case (Cons y ys)
  have "less_event y x \<Longrightarrow> CreationTime y \<noteq> CreationTime x"
    by (auto simp: less_event_def Before_def)
  with Cons show ?case by auto
qed

lemma sorted_sort_events: "sorted_wrt (\<lambda>a b. \<not> less_event b a) (sort_events xs)"
  by (induction xs) (simp_all add: sort_events_def sorted_insort_event)

lemma mset_sort_events: "mset (sort_events xs) = mset xs"
  by (induction xs) (simp_all add: sort_events_def mset_insort_event)

lemma stable_sort_events:
  "filter (\<lambda>e. CreationTime e = t) (sort_events xs) = filter (\<lambda>e. CreationTime e = t) xs"
  by (induction xs) (simp_all add: sort_events_def filter_insort_event)

lemma Less_in_range:
  "0 \<le> i \<Longrightarrow> i < int (length b) \<Longrightarrow> 0 \<le> j \<Longrightarrow> j < int (length b) \<Longrightarrow>
   Less b i j = Inr (Before (CreationTime (b ! nat i)) (CreationTime (b ! nat j)))"
  by (simp add: Less_def)

text \<open>
  C10. \<open>Less\<close> on two positions of the slice holds exactly when the creation time of
  the first is strictly before that of the second. The comparison is irreflexive and
  transitive, and "not after" is total and transitive (a total preorder). A stable sort
  through \<open>Less\<close> returns a permutation of its input with creation times that never
  decrease, and events of one creation time keep their input order. Creation times
  \<open>[5, 1, 3]\<close> are sorted to \<open>[1, 3, 5]\<close>.
\<close>

theorem ByCreationTime_order:
  "(0 \<le> i \<and> i < int (length b) \<and> 0 \<le> j \<and> j < int (length b) \<longrightarrow>
      Less b i j = Inr (Before (CreationTime (b ! nat i)) (CreationTime (b ! nat j)))) \<and>
   (less_event x y \<longleftrightarrow> Before (CreationTime x) (CreationTime y)) \<and>
   \<not> less_event x x \<and>
   (less_event x y \<and> less_event y z \<longrightarrow> less_event x z) \<and>
   (\<not> less_event y x \<or> \<not> less_event x y) \<and>
   (\<not> less_event y x \<and> \<not> less_event z y \<longrightarrow> \<not> less_event z x) \<and>
   (\<not> less_event x y \<and> \<not> less_event y x \<longleftrightarrow> CreationTime x = CreationTime y) \<and>
   sorted_wrt (\<lambda>e f. \<not> Before (CreationTime f) (CreationTime e)) (sort_events b) \<and>
   mset (sort_events b) = mset b \<and>
   filter (\<lambda>e. CreationTime e = t) (sort_events b) = filter (\<lambda>e. CreationTime e = t) b \<and>
   map CreationTime (sort_events [sample_event s 5, sample_event s 1, sample_event s 3]) =
     map CreationTime [sample_event s 1, sample_event s 3, sample_event s 5]"
proof -
  have tie: "\<not> less_event x y \<and> \<not> less_event y x \<longleftrightarrow> CreationTime x = CreationTime y"
    by (auto simp: less_event_def Before_def)
  have srt: "sorted_wrt (\<lambda>e f. \<not> Before (CreationTime f) (CreationTime e)) (sort_events b)"
    using sorted_sort_events [of b] by (simp add: less_event_def)
  have ex: "map CreationTime (sort_events [sample_event s 5, sample_event s 1, sample_event s 3]) =
     map CreationTime [sample_event s 1, sample_event s 3, sample_event s 5]"
    by (simp add: sort_events_def less_event_def sample_event_def ParseAWSTimestamp_Some
        Before_def)
  have rng: "0 \<le> i \<and> i < int (length b) \<and> 0 \<le> j \<and> j < int (length b) \<longrightarrow>
      Less b i j = Inr (Before (CreationTime (b ! nat i)) (CreationTime (b ! nat j)))"
    by (simp add: Less_in_range)
  have tr: "less_event x y \<and> less_event y z \<longrightarrow> less_event x z"
    using less_event_trans [of x y z] by blast
  have ntr: "\<not> less_event y x \<and> \<not> less_event z y \<longrightarrow> \<not> less_event z x"
    using not_less_event_trans [of y x z] by blast
  have df: "less_event x y \<longleftrightarrow> Before (CreationTime x) (CreationTime y)"
    by (simp add: less_event_def)
  from rng df less_event_irrefl [of x] tr less_event_asym [of y x] ntr tie srt
    mset_sort_events [of b] stable_sort_events [of t b] ex
  show ?thesis by (intro conjI)
qed

theorem ByCreationTime_order_witness:
  "Less [sample_event ''a'' 5, sample_event ''b'' 1, sample_event ''c'' 3] 1 0 = Inr True \<and>
   Less [sample_event ''a'' 5, sample_event ''b'' 1, sample_event ''c'' 3] 0 1 = Inr False \<and>
   less_event (sample_event ''b'' 1) (sample_event ''c'' 3) \<and>
   less_event (sample_event ''c'' 3) (sample_event ''a'' 5) \<and>
   less_event (sample_event ''b'' 1) (sample_event ''a'' 5) \<and>
   sort_events [sample_event ''a'' 5, sample_event ''b'' 1, sample_event ''c'' 3, sample_event ''d'' 1] =
     [sample_event ''b'' 1, sample_event ''d'' 1, sample_event ''c'' 3, sample_event ''a'' 5]"
proof -
  let ?b = "[sample_event ''a'' 5, sample_event ''b'' 1, sample_event ''c'' 3]"
  have t: "CreationTime (sample_event n ms) = \<lparr>sec = ms div 1000, nsec = (ms mod 1000) * 1000000\<rparr>"
    for n ms by (simp add: sample_event_def ParseAWSTimestamp_Some)
  have l10: "Less ?b 1 0 = Inr (Before (CreationTime (?b ! nat 1)) (CreationTime (?b ! nat 0)))"
    using ByCreationTime_order [of 1 ?b 0] by simp
  have l01: "Less ?b 0 1 = Inr (Before (CreationTime (?b ! nat 0)) (CreationTime (?b ! nat 1)))"
    using ByCreationTime_order [of 0 ?b 1] by simp
  have bc: "less_event (sample_event ''b'' 1) (sample_event ''c'' 3)"
    and ca: "less_event (sample_event ''c'' 3) (sample_event ''a'' 5)"
    by (simp_all add: less_event_def t Before_def)
  have ba: "less_event (sample_event ''b'' 1) (sample_event ''a'' 5)"
    using ByCreationTime_order [of _ _ _ "sample_event ''b'' 1" "sample_event ''c'' 3"
        "sample_event ''a'' 5"] bc ca by blast
  have srt: "sort_events [sample_event ''a'' 5, sample_event ''b'' 1, sample_event ''c'' 3,
        sample_event ''d'' 1] =
     [sample_event ''b'' 1, sample_event ''d'' 1, sample_event ''c'' 3, sample_event ''a'' 5]"
    by (simp add: sort_events_def less_event_def t Before_def)
  show ?thesis using l10 l01 bc ca ba srt by (simp add: t Before_def)
qed

section \<open>Properties of the scanner and of the decoders\<close>

lemma isSpace_not_special:
  "isSpace c \<Longrightarrow> c \<noteq> CHR ''{'' \<and> c \<noteq> CHR ''['' \<and> c \<noteq> CHR '']'' \<and> c \<noteq> CHR ''}'' \<and>
     c \<noteq> CHR 0x22 \<and> c \<noteq> CHR 0x5C \<and> c \<noteq> CHR ''.'' \<and> c \<noteq> CHR ''e'' \<and> c \<noteq> CHR ''E'' \<and>
     c \<noteq> CHR ''+'' \<and> c \<noteq> CHR ''-'' \<and> c \<noteq> CHR ''0'' \<and> c \<noteq> CHR ''u'' \<and> c \<noteq> CHR ''/'' \<and>
     c \<noteq> CHR ''a'' \<and> c \<noteq> CHR ''l'' \<and> c \<noteq> CHR ''s'' \<and>
     c \<notin> set ''bfnrt'' \<and> \<not> isDigit c \<and> \<not> isHex c \<and> c \<noteq> CHR '':'' \<and> c \<noteq> CHR '',''"
  by (auto simp: isSpace_def isDigit_def isHex_def)

lemma stateEndValue_space:
  "isSpace c \<Longrightarrow> stateEndValue st c = (case st of [] \<Rightarrow> (EndTop, []) | _ \<Rightarrow> (EndValue, st))"
  by (cases st) (auto simp: stateEndTop_def)

text \<open>White space in front of the value leaves the scanner where it starts.\<close>

lemma foldl_leading_spaces:
  "foldl scan_step (BeginValue, []) (dropWhile isSpace s @ r) =
   foldl scan_step (BeginValue, []) (s @ r)"
  by (induction s) (simp_all add: stateBeginValue_def)

lemma scan_space_cases:
  assumes "isSpace c"
  shows "scan_step \<sigma> c = (EndTop, []) \<or> idle (scan_step \<sigma> c)"
proof -
  note sp = isSpace_not_special [OF assms]
  obtain stp st where \<sigma>: "\<sigma> = (stp, st)" by (cases \<sigma>)
  show ?thesis
    unfolding \<sigma> using assms sp
    by (cases stp; cases st)
      (auto simp: stateBeginValue_def stateBeginString_def state0_def stateESign_def
        stateEndTop_def stateEndValue_space idle_def split: list.splits)
qed

lemma scan_space_agree:
  assumes "isSpace c" "isSpace d"
  shows "scan_step \<sigma> c = (EndTop, []) \<longleftrightarrow> scan_step \<sigma> d = (EndTop, [])"
proof -
  note sp = isSpace_not_special [OF assms(1)] isSpace_not_special [OF assms(2)]
  obtain stp st where \<sigma>: "\<sigma> = (stp, st)" by (cases \<sigma>)
  show ?thesis
    unfolding \<sigma> using assms sp
    by (cases stp; cases st)
      (auto simp: stateBeginValue_def stateBeginString_def state0_def stateESign_def
        stateEndTop_def stateEndValue_space idle_def split: list.splits)
qed

lemma idle_space:
  assumes "idle \<sigma>" "isSpace d"
  shows "idle (scan_step \<sigma> d)"
proof -
  note sp = isSpace_not_special [OF assms(2)]
  obtain stp st where \<sigma>: "\<sigma> = (stp, st)" by (cases \<sigma>)
  show ?thesis
    using assms sp unfolding \<sigma>
    by (cases stp; cases st)
      (auto simp: stateBeginValue_def stateBeginString_def stateEndValue_space idle_def
        split: list.splits)
qed

lemma idle_not_EndTop: "idle \<sigma> \<Longrightarrow> fst \<sigma> \<noteq> EndTop"
  by (auto simp: idle_def)

lemma idle_spaces: "idle \<sigma> \<Longrightarrow> list_all isSpace ws \<Longrightarrow> idle (foldl scan_step \<sigma> ws)"
  by (induction ws arbitrary: \<sigma>) (simp_all add: idle_space)

lemma EndTop_spaces:
  "list_all isSpace ws \<Longrightarrow> foldl scan_step (EndTop, []) ws = (EndTop, [])"
  by (induction ws) (simp_all add: stateEndTop_def)

lemma scan_spaces_EndTop:
  assumes "list_all isSpace ws" "ws \<noteq> []"
  shows "fst (foldl scan_step \<sigma> ws) = EndTop \<longleftrightarrow> scan_step \<sigma> (CHR '' '') = (EndTop, [])"
proof -
  from assms obtain w ws' where ws: "ws = w # ws'" and w: "isSpace w" and ws': "list_all isSpace ws'"
    by (cases ws) auto
  have sp: "isSpace (CHR '' '')" by (simp add: isSpace_def)
  consider "scan_step \<sigma> w = (EndTop, [])" | "idle (scan_step \<sigma> w)"
    using scan_space_cases [OF w] by blast
  then show ?thesis
  proof cases
    case 1
    then show ?thesis using scan_space_agree [OF w sp, of \<sigma>] ws' by (simp add: ws EndTop_spaces)
  next
    case 2
    then have "idle (foldl scan_step \<sigma> ws)" using ws' by (simp add: ws idle_spaces)
    moreover have "scan_step \<sigma> w \<noteq> (EndTop, [])" using 2 idle_not_EndTop by fastforce
    ultimately show ?thesis using scan_space_agree [OF w sp, of \<sigma>] idle_not_EndTop by blast
  qed
qed

lemma trim_decompose:
  "\<exists>ws. dropWhile isSpace s = trimSpace s @ ws \<and> list_all isSpace ws"
proof -
  let ?t = "dropWhile isSpace s"
  have "rev ?t = takeWhile isSpace (rev ?t) @ dropWhile isSpace (rev ?t)" by simp
  then have "?t = rev (dropWhile isSpace (rev ?t)) @ rev (takeWhile isSpace (rev ?t))"
    by (metis rev_append rev_rev_ident)
  moreover have "list_all isSpace (rev (takeWhile isSpace (rev ?t)))"
    by (simp add: list_all_iff) (meson set_takeWhileD)
  ultimately show ?thesis unfolding trimSpace_def by blast
qed

lemma checkValid_trimSpace: "checkValid (trimSpace s) = checkValid s"
proof -
  obtain ws where t: "dropWhile isSpace s = trimSpace s @ ws" and ws: "list_all isSpace ws"
    using trim_decompose by blast
  let ?\<sigma> = "foldl scan_step (BeginValue, []) (trimSpace s)"
  have "checkValid s \<longleftrightarrow> fst (foldl scan_step (BeginValue, []) (dropWhile isSpace s @ '' '')) = EndTop"
    unfolding checkValid_def foldl_leading_spaces ..
  also have "\<dots> \<longleftrightarrow> fst (foldl scan_step ?\<sigma> (ws @ '' '')) = EndTop"
    by (simp add: t)
  also have "\<dots> \<longleftrightarrow> scan_step ?\<sigma> (CHR '' '') = (EndTop, [])"
    using scan_spaces_EndTop [of "ws @ '' ''" ?\<sigma>] ws by (simp add: isSpace_def)
  also have "\<dots> \<longleftrightarrow> fst (foldl scan_step ?\<sigma> '' '') = EndTop"
    using scan_spaces_EndTop [of "'' ''" ?\<sigma>] by (simp add: isSpace_def)
  also have "\<dots> \<longleftrightarrow> checkValid (trimSpace s)"
    by (simp add: checkValid_def)
  finally show ?thesis by simp
qed

lemma trimSpace_idem: "trimSpace (trimSpace s) = trimSpace s"
proof -
  let ?t = "dropWhile isSpace s"
  let ?u = "rev (dropWhile isSpace (rev ?t))"
  have "dropWhile isSpace ?u = ?u"
  proof (cases "?u = []")
    case True
    then show ?thesis by (simp only: dropWhile.simps)
  next
    case False
    obtain ws where t: "?t = ?u @ ws" using trim_decompose [of s] unfolding trimSpace_def by blast
    from False t have "hd ?u = hd ?t" by (metis hd_append2)
    moreover have "?t \<noteq> []"
    proof
      assume "?t = []"
      then have "?u = []" by (simp only: rev.simps dropWhile.simps)
      with False show False by contradiction
    qed
    then have "\<not> isSpace (hd ?t)" by (simp add: hd_dropWhile)
    ultimately show ?thesis using False by (cases ?u) auto
  qed
  then show ?thesis unfolding trimSpace_def by (simp add: dropWhile_idem)
qed

lemma kind_of_trimSpace: "kind_of (trimSpace s) = kind_of s"
  by (simp add: kind_of_def trimSpace_idem)

lemma object_members_trimSpace: "object_members (trimSpace s) = object_members s"
  by (simp add: object_members_def trimSpace_idem)

lemma Unmarshal_map_trimSpace: "Unmarshal_map (trimSpace s) = Unmarshal_map s"
  by (simp add: Unmarshal_map_def checkValid_trimSpace kind_of_trimSpace object_members_trimSpace
      split: json_kind.splits)

section \<open>Properties of the record parser\<close>

lemma UnmarshalJSON_trimSpace: "UnmarshalJSON (trimSpace msg) s = UnmarshalJSON msg s"
  by (simp add: UnmarshalJSON_def Unmarshal_map_trimSpace)

lemma Unmarshal_map_invalid: "\<not> checkValid msg \<Longrightarrow> Unmarshal_map msg = Inl SyntaxError"
  by (simp add: Unmarshal_map_def)

lemma Unmarshal_SlogEvent_eq: "Unmarshal_SlogEvent msg s = UnmarshalJSON msg s"
proof (cases "checkValid msg")
  case True
  then show ?thesis by (simp add: Unmarshal_SlogEvent_def UnmarshalJSON_trimSpace)
next
  case False
  then show ?thesis
    by (simp add: Unmarshal_SlogEvent_def UnmarshalJSON_def Unmarshal_map_invalid)
qed

lemma parse_eq:
  "parse msg = (case UnmarshalJSON msg SlogEvent_zero of Inl err \<Rightarrow> fallback msg | Inr e \<Rightarrow> e)"
  by (simp add: parse_def Unmarshal_SlogEvent_eq)

lemma isl_sum_bind: "isl (sum_bind m f) \<longleftrightarrow> isl m \<or> isl (f (projr m))"
  by (cases m) auto

text \<open>The method fails exactly when the message or a reserved key that is present fails.\<close>

lemma UnmarshalJSON_isl:
  "isl (UnmarshalJSON msg s) \<longleftrightarrow>
     isl (Unmarshal_map msg) \<or>
     (\<exists>v. map_of (projr (Unmarshal_map msg)) ''level'' = Some v \<and> isl (Unmarshal_Level v (Level s))) \<or>
     (\<exists>v. map_of (projr (Unmarshal_map msg)) ''time'' = Some v \<and> isl (Unmarshal_Time v (Time s))) \<or>
     (\<exists>v. map_of (projr (Unmarshal_map msg)) ''source'' = Some v \<and>
          isl (Unmarshal_SourceInfo v (Source s))) \<or>
     (\<exists>v. map_of (projr (Unmarshal_map msg)) ''msg'' = Some v \<and>
          isl (Unmarshal_string v (Message s)))"
  by (auto simp: UnmarshalJSON_def isl_sum_bind split: option.splits)

lemma UnmarshalJSON_Inr:
  assumes "Unmarshal_map msg = Inr raw"
    and "(case map_of raw ''level'' of Some v \<Rightarrow> Unmarshal_Level v (Level s)
          | None \<Rightarrow> Inr (Level s)) = Inr lv"
    and "(case map_of raw ''time'' of Some v \<Rightarrow> Unmarshal_Time v (Time s)
          | None \<Rightarrow> Inr (Time s)) = Inr t"
    and "(case map_of raw ''source'' of Some v \<Rightarrow> Unmarshal_SourceInfo v (Source s)
          | None \<Rightarrow> Inr (Source s)) = Inr src"
    and "(case map_of raw ''msg'' of Some v \<Rightarrow> Unmarshal_string v (Message s)
          | None \<Rightarrow> Inr (Message s)) = Inr m"
  shows "UnmarshalJSON msg s =
     Inr (s\<lparr>Level := lv, Time := t, Source := src, Message := m,
            Data := range_raw raw Map.empty\<rparr>)"
  using assms by (simp add: UnmarshalJSON_def)

lemma parse_failed: "isl (UnmarshalJSON msg SlogEvent_zero) \<Longrightarrow> parse msg = fallback msg"
  by (cases "UnmarshalJSON msg SlogEvent_zero") (simp_all add: parse_eq)

lemma parse_decoded: "UnmarshalJSON msg SlogEvent_zero = Inr e \<Longrightarrow> parse msg = e"
  by (simp add: parse_eq)

lemma fallback_fields:
  "Level (fallback msg) = INFO" "Message (fallback msg) = msg" "Data (fallback msg) = Map.empty"
  "Time (fallback msg) = Time_zero" "Source (fallback msg) = SourceInfo_zero"
  by (simp_all add: fallback_def SlogEvent_zero_def)

lemma zero_fields:
  "Level SlogEvent_zero = Level_zero" "Message SlogEvent_zero = []"
  "Data SlogEvent_zero = Map.empty" "Time SlogEvent_zero = Time_zero"
  "Source SlogEvent_zero = SourceInfo_zero"
  by (simp_all add: SlogEvent_zero_def)

text \<open>
  C3. When the message is a JSON object and a reserved key (\<open>level\<close>, \<open>time\<close>,
  \<open>source\<close> or \<open>msg\<close>) is present with a value that does not decode into its field, the
  parsed record is the fallback record of the raw text: level \<open>INFO\<close>, the raw text as
  message, no payload, zero time, zero source location.
\<close>

theorem reserved_key_failure_degrades:
  assumes "Unmarshal_map msg = Inr raw" and "kind_of msg = JObject"
    and "(\<exists>v e. map_of raw ''level'' = Some v \<and> Unmarshal_Level v Level_zero = Inl e) \<or>
         (\<exists>v e. map_of raw ''time'' = Some v \<and> Unmarshal_Time v Time_zero = Inl e) \<or>
         (\<exists>v e. map_of raw ''source'' = Some v \<and> Unmarshal_SourceInfo v SourceInfo_zero = Inl e) \<or>
         (\<exists>v e. map_of raw ''msg'' = Some v \<and> Unmarshal_string v [] = Inl e)"
  shows "parse msg = fallback msg \<and> Level (parse msg) = INFO \<and> Message (parse msg) = msg \<and>
         Data (parse msg) = Map.empty \<and> Time (parse msg) = Time_zero \<and>
         Source (parse msg) = SourceInfo_zero"
proof -
  have "isl (UnmarshalJSON msg SlogEvent_zero)"
    unfolding UnmarshalJSON_isl using assms(1,3) by (auto simp: zero_fields)
  then have "parse msg = fallback msg" by (rule parse_failed)
  then show ?thesis by (simp add: fallback_fields)
qed

theorem reserved_key_failure_degrades_witness:
  "Level (parse ''{\"level\":\"INFO\",\"time\":\"yesterday\",\"msg\":\"hi\",\"a\":1}'') = INFO \<and>
   Message (parse ''{\"level\":\"INFO\",\"time\":\"yesterday\",\"msg\":\"hi\",\"a\":1}'') =
     ''{\"level\":\"INFO\",\"time\":\"yesterday\",\"msg\":\"hi\",\"a\":1}'' \<and>
   Data (parse ''{\"level\":\"INFO\",\"time\":\"yesterday\",\"msg\":\"hi\",\"a\":1}'') ''a'' = None"
proof -
  let ?m = "''{\"level\":\"INFO\",\"time\":\"yesterday\",\"msg\":\"hi\",\"a\":1}''"
  let ?raw = "[(''level'', ''\"INFO\"''), (''time'', ''\"yesterday\"''), (''msg'', ''\"hi\"''),
               (''a'', ''1'')]"
  have 1: "Unmarshal_map ?m = Inr ?raw" by code_simp
  have 2: "kind_of ?m = JObject" by code_simp
  have 3: "map_of ?raw ''time'' = Some ''\"yesterday\"''" by simp
  have 4: "Unmarshal_Time ''\"yesterday\"'' Time_zero = Inl ParseError" by code_simp
  from 3 4 have 5:
    "(\<exists>v e. map_of ?raw ''level'' = Some v \<and> Unmarshal_Level v Level_zero = Inl e) \<or>
     (\<exists>v e. map_of ?raw ''time'' = Some v \<and> Unmarshal_Time v Time_zero = Inl e) \<or>
     (\<exists>v e. map_of ?raw ''source'' = Some v \<and> Unmarshal_SourceInfo v SourceInfo_zero = Inl e) \<or>
     (\<exists>v e. map_of ?raw ''msg'' = Some v \<and> Unmarshal_string v [] = Inl e)"
    by blast
  from reserved_key_failure_degrades [OF 1 2 5]
  have a: "Level (parse ?m) = INFO" and b: "Message (parse ?m) = ?m"
    and c: "Data (parse ?m) = Map.empty" by blast+
  from c have "Data (parse ?m) ''a'' = None" by (simp only:)
  with a b show ?thesis by blast
qed

text \<open>
  C1 fails on a record without message text: \<open>NewEvent\<close> dereferences the nil pointer
  and panics. The same holds for a record without stream name or without identifier.
\<close>

theorem NewEvent_nil_message_panics:
  "NewEvent \<lparr>EventId = Some ''id'', IngestionTime = Some 0, LogStreamName = Some ''stream'',
             Message_cw = None, Timestamp = Some 0\<rparr> ''group'' = Inl NilDereference \<and>
   NewEvent \<lparr>EventId = Some ''id'', IngestionTime = Some 0, LogStreamName = None,
             Message_cw = Some ''text'', Timestamp = Some 0\<rparr> ''group'' = Inl NilDereference \<and>
   NewEvent \<lparr>EventId = None, IngestionTime = Some 0, LogStreamName = Some ''stream'',
             Message_cw = Some ''text'', Timestamp = Some 0\<rparr> ''group'' = Inl NilDereference"
  by (simp add: NewEvent_def)

text \<open>
  A message that is not valid JSON, and a valid one that is neither an object nor
  \<open>null\<close>, is parsed to the fallback record.
\<close>

lemma parse_fallback_unless_object_or_null:
  assumes "\<not> checkValid msg \<or> kind_of msg \<notin> {JObject, JNull}"
  shows "parse msg = fallback msg"
proof -
  from assms have "isl (Unmarshal_map msg)"
    by (auto simp: Unmarshal_map_def split: json_kind.splits)
  then have "isl (UnmarshalJSON msg SlogEvent_zero)" by (simp add: UnmarshalJSON_isl)
  then show ?thesis by (rule parse_failed)
qed

text \<open>
  C2 fails on the message \<open>null\<close>, which is valid JSON and not an object: the decoder
  takes \<open>null\<close> for an empty map without error, and the record has the zero level
  \<open>NONE\<close> and an empty message where the fallback record has \<open>INFO\<close> and the raw text.
\<close>

theorem parse_null_is_not_fallback:
  "checkValid ''null'' \<and> kind_of ''null'' = JNull \<and>
   Level (parse ''null'') = NONE \<and> Message (parse ''null'') = [] \<and>
   Level (fallback ''null'') = INFO \<and> Message (fallback ''null'') = ''null''"
  by code_simp

section \<open>Properties of the payload\<close>

lemma sum_bind_Inr_iff: "sum_bind m f = Inr y \<longleftrightarrow> (\<exists>x. m = Inr x \<and> f x = Inr y)"
  by (cases m) auto

lemma keys_assign: "set (map fst (assign k v m)) = insert k (set (map fst m))"
proof (induction m)
  case Nil
  then show ?case by simp
next
  case (Cons kv m)
  obtain k' v' where kv: "kv = (k', v')" by (cases kv)
  show ?case
  proof (cases "k = k'")
    case True
    then show ?thesis by (simp add: kv)
  next
    case False
    have "set (map fst (assign k v (kv # m))) = insert k' (set (map fst (assign k v m)))"
      using False by (simp add: kv)
    also have "\<dots> = insert k' (insert k (set (map fst m)))" by (simp only: Cons.IH)
    also have "\<dots> = insert k (set (map fst (kv # m)))" by (auto simp: kv)
    finally show ?thesis .
  qed
qed

lemma distinct_assign: "distinct (map fst m) \<Longrightarrow> distinct (map fst (assign k v m))"
proof (induction m)
  case Nil
  then show ?case by simp
next
  case (Cons kv m)
  obtain k' v' where kv: "kv = (k', v')" by (cases kv)
  show ?case
  proof (cases "k = k'")
    case True
    with Cons.prems kv show ?thesis by simp
  next
    case False
    from Cons have "distinct (map fst (assign k v m))" by simp
    moreover have "k' \<notin> set (map fst (assign k v m))"
      using Cons.prems False kv unfolding keys_assign by auto
    ultimately show ?thesis using False kv by simp
  qed
qed

lemma distinct_foldl_assign:
  "distinct (map fst m) \<Longrightarrow> distinct (map fst (foldl (\<lambda>m (k, v). assign k v m) m kvs))"
  by (induction kvs arbitrary: m) (auto simp: distinct_assign)

lemma Unmarshal_map_distinct: "Unmarshal_map msg = Inr raw \<Longrightarrow> distinct (map fst raw)"
  by (auto simp: Unmarshal_map_def distinct_foldl_assign split: if_splits json_kind.splits)

text \<open>
  The loop over a map with distinct keys gives every key that is not reserved the text
  of its value, in whatever order the keys are visited.
\<close>

lemma range_raw_lookup:
  "distinct (map fst raw) \<Longrightarrow>
   range_raw raw d k =
     (if k \<in> set staticFields then d k
      else (case map_of raw k of Some v \<Rightarrow> Some (payload_text v) | None \<Rightarrow> d k))"
proof (induction raw arbitrary: d)
  case Nil
  then show ?case by simp
next
  case (Cons kv raw)
  obtain k' v' where kv: "kv = (k', v')" by (cases kv)
  from Cons.prems kv have d: "distinct (map fst raw)" and nk: "k' \<notin> fst ` set raw" by auto
  from nk have none: "map_of raw k' = None" by (simp add: map_of_eq_None_iff)
  show ?case
    unfolding kv using Cons.IH [OF d] none by (auto split: option.splits)
qed

lemma UnmarshalJSON_Data:
  assumes "UnmarshalJSON msg s = Inr e" and "Unmarshal_map msg = Inr raw"
  shows "Data e k =
     (if k \<in> set staticFields then None else map_option payload_text (map_of raw k))"
proof -
  from assms have "Data e = range_raw raw Map.empty"
    by (auto simp: UnmarshalJSON_def sum_bind_Inr_iff)
  then show ?thesis
    using range_raw_lookup [OF Unmarshal_map_distinct [OF assms(2)], of Map.empty k]
    by (auto split: option.splits)
qed

lemma UnmarshalJSON_Data_dom:
  assumes "UnmarshalJSON msg s = Inr e" and "Unmarshal_map msg = Inr raw"
  shows "dom (Data e) = fst ` set raw - set staticFields"
proof -
  have "k \<in> dom (Data e) \<longleftrightarrow> k \<in> fst ` set raw - set staticFields" for k
  proof (cases "k \<in> set staticFields")
    case True
    then show ?thesis using UnmarshalJSON_Data [OF assms, of k] by (simp add: dom_def)
  next
    case False
    have "map_of raw k \<noteq> None \<longleftrightarrow> k \<in> fst ` set raw" by (simp add: map_of_eq_None_iff)
    with False show ?thesis
      using UnmarshalJSON_Data [OF assms, of k] by (cases "map_of raw k") (auto simp: dom_def)
  qed
  then show ?thesis by blast
qed

section \<open>Properties of the event construction\<close>

lemma resolve_time_zero:
  "IsZero (Time e) \<Longrightarrow> Time (resolve_time e ts) = ParseAWSTimestamp ts"
  by (simp add: resolve_time_def)

lemma NewEvent_Inr:
  assumes "Message_cw cw = Some msg" "LogStreamName cw = Some st" "EventId cw = Some i"
  shows "NewEvent cw g =
     Inr \<lparr>Level = Level (resolve_time (parse msg) (Timestamp cw)),
          Time = Time (resolve_time (parse msg) (Timestamp cw)),
          Source = Source (resolve_time (parse msg) (Timestamp cw)),
          Message = Message (resolve_time (parse msg) (Timestamp cw)),
          Data = Data (resolve_time (parse msg) (Timestamp cw)),
          Stream = st, Group = g, ID = i,
          IngestTime = ParseAWSTimestamp (IngestionTime cw),
          CreationTime = ParseAWSTimestamp (Timestamp cw)\<rparr>"
  using assms by (simp add: NewEvent_def Let_def)

text \<open>
  C7. For a record with message text, stream name and identifier whose parsed message
  has the zero time, \<open>NewEvent\<close> returns an event whose time and whose creation time
  are both the conversion of the record's creation timestamp: an absent timestamp is
  the Unix epoch, and \<open>ms\<close> milliseconds are \<open>ms div 1000\<close> seconds and
  \<open>(ms mod 1000) * 10^6\<close> nanoseconds.
\<close>

theorem NewEvent_zero_time_takes_creation_time:
  assumes "Message_cw cw = Some msg" "LogStreamName cw = Some st" "EventId cw = Some i"
    and "IsZero (Time (parse msg))"
  shows "\<exists>e. NewEvent cw g = Inr e \<and>
           Time e = ParseAWSTimestamp (Timestamp cw) \<and>
           CreationTime e = ParseAWSTimestamp (Timestamp cw) \<and>
           Time e = CreationTime e \<and>
           (case Timestamp cw of
              None \<Rightarrow> Time e = \<lparr>sec = 0, nsec = 0\<rparr>
            | Some ms \<Rightarrow> Time e = \<lparr>sec = ms div 1000, nsec = (ms mod 1000) * 1000000\<rparr> \<and>
                        sec (Time e) * 1000000000 + nsec (Time e) = ms * 1000000)"
proof -
  let ?T = "ParseAWSTimestamp (Timestamp cw)"
  obtain e where e: "NewEvent cw g = Inr e"
    and t: "Time e = Time (resolve_time (parse msg) (Timestamp cw))"
    and c: "CreationTime e = ?T"
    using NewEvent_Inr [OF assms(1-3), of g] by simp
  from t have t': "Time e = ?T" by (simp add: resolve_time_zero [OF assms(4)])
  have "case Timestamp cw of
          None \<Rightarrow> Time e = \<lparr>sec = 0, nsec = 0\<rparr>
        | Some ms \<Rightarrow> Time e = \<lparr>sec = ms div 1000, nsec = (ms mod 1000) * 1000000\<rparr> \<and>
                    sec (Time e) * 1000000000 + nsec (Time e) = ms * 1000000"
  proof (cases "Timestamp cw")
    case None
    then show ?thesis using t' by (simp add: ParseAWSTimestamp_None)
  next
    case (Some ms)
    have "ms = (ms div 1000) * 1000 + ms mod 1000" by simp
    then have "ms * 1000000 = ((ms div 1000) * 1000 + ms mod 1000) * 1000000" by simp
    then have "(ms div 1000) * 1000000000 + (ms mod 1000) * 1000000 = ms * 1000000"
      by (simp only: distrib_right mult.assoc)
    moreover have "Time e = \<lparr>sec = ms div 1000, nsec = (ms mod 1000) * 1000000\<rparr>"
      using t' Some by (simp add: ParseAWSTimestamp_Some)
    ultimately show ?thesis using Some by simp
  qed
  with e t' c show ?thesis by auto
qed

theorem NewEvent_zero_time_takes_creation_time_witness:
  "\<exists>e. NewEvent \<lparr>EventId = Some ''37'', IngestionTime = Some 1700000000123,
                  LogStreamName = Some ''worker-1'', Message_cw = Some ''{\"msg\":\"started\"}'',
                  Timestamp = Some 1700000000000\<rparr> ''group'' = Inr e \<and>
        Time e = \<lparr>sec = 1700000000, nsec = 0\<rparr> \<and>
        CreationTime e = \<lparr>sec = 1700000000, nsec = 0\<rparr>"
proof -
  let ?cw = "\<lparr>EventId = Some ''37'', IngestionTime = Some 1700000000123,
              LogStreamName = Some ''worker-1'', Message_cw = Some ''{\"msg\":\"started\"}'',
              Timestamp = Some 1700000000000\<rparr>"
  have z: "IsZero (Time (parse ''{\"msg\":\"started\"}''))" by code_simp
  have "Message_cw ?cw = Some ''{\"msg\":\"started\"}''" "LogStreamName ?cw = Some ''worker-1''"
    "EventId ?cw = Some ''37''" by simp_all
  from NewEvent_zero_time_takes_creation_time [OF this z, of "''group''"]
  obtain e where e: "NewEvent ?cw ''group'' = Inr e"
    "Time e = ParseAWSTimestamp (Timestamp ?cw)" "CreationTime e = ParseAWSTimestamp (Timestamp ?cw)"
    by blast
  have "ParseAWSTimestamp (Timestamp ?cw) = \<lparr>sec = 1700000000, nsec = 0\<rparr>"
    by (simp add: ParseAWSTimestamp_Some)
  with e show ?thesis by auto
qed

section \<open>Properties of the severity\<close>

text \<open>
  C8, as the code has it. The severity of the parsed record is \<open>INFO\<close> whenever the
  message is not decoded as an object, and whenever a \<open>level\<close> that is present does not
  decode. When the message is an object that decodes and has no \<open>level\<close>, the severity
  is the zero level \<open>NONE\<close>, which is not \<open>INFO\<close>.
\<close>

theorem level_default:
  "(isl (Unmarshal_map msg) \<longrightarrow> Level (parse msg) = INFO) \<and>
   (Unmarshal_map msg = Inr raw \<and> map_of raw ''level'' = Some v \<and>
      isl (Unmarshal_Level v Level_zero) \<longrightarrow> Level (parse msg) = INFO) \<and>
   (Unmarshal_map msg = Inr raw \<and> map_of raw ''level'' = None \<and>
      UnmarshalJSON msg SlogEvent_zero = Inr e \<longrightarrow>
        Level (parse msg) = NONE \<and> Level (parse msg) \<noteq> INFO)"
proof -
  have a: "Level (parse msg) = INFO" if "isl (Unmarshal_map msg)"
  proof -
    from that have "isl (UnmarshalJSON msg SlogEvent_zero)" by (simp add: UnmarshalJSON_isl)
    then show ?thesis by (simp add: parse_failed fallback_fields)
  qed
  have b: "Level (parse msg) = INFO"
    if "Unmarshal_map msg = Inr raw" "map_of raw ''level'' = Some v"
      "isl (Unmarshal_Level v Level_zero)"
  proof -
    from that have "isl (UnmarshalJSON msg SlogEvent_zero)"
      by (simp add: UnmarshalJSON_isl zero_fields)
    then show ?thesis by (simp add: parse_failed fallback_fields)
  qed
  have c: "Level (parse msg) = NONE \<and> Level (parse msg) \<noteq> INFO"
    if "Unmarshal_map msg = Inr raw" "map_of raw ''level'' = None"
      "UnmarshalJSON msg SlogEvent_zero = Inr e"
  proof -
    from that have "Level e = Level SlogEvent_zero"
      by (auto simp: UnmarshalJSON_def sum_bind_Inr_iff)
    with that(3) show ?thesis by (simp add: parse_decoded zero_fields Level_zero_def)
  qed
  from a b c show ?thesis by blast
qed

theorem level_default_witness:
  "Level (parse ''disk full'') = INFO \<and>
   Level (parse ''{\"level\":\"loud\",\"msg\":\"disk full\"}'') = INFO \<and>
   Level (parse ''{\"msg\":\"disk full\",\"user\":\"bob\"}'') = NONE"
proof -
  let ?m2 = "''{\"level\":\"loud\",\"msg\":\"disk full\"}''"
  let ?m3 = "''{\"msg\":\"disk full\",\"user\":\"bob\"}''"
  have 1: "isl (Unmarshal_map ''disk full'')" by code_simp
  have 2: "Unmarshal_map ?m2 = Inr [(''level'', ''\"loud\"''), (''msg'', ''\"disk full\"'')]"
    by code_simp
  have m2a: "map_of [(''level'', ''\"loud\"''), (''msg'', ''\"disk full\"'')] ''level'' =
    Some ''\"loud\"''" by simp
  have m2b: "isl (Unmarshal_Level ''\"loud\"'' Level_zero)" by code_simp
  have 3: "Unmarshal_map ?m3 = Inr [(''msg'', ''\"disk full\"''), (''user'', ''\"bob\"'')]"
    by code_simp
  have m3a: "map_of [(''msg'', ''\"disk full\"''), (''user'', ''\"bob\"'')] ''level'' = None"
    by simp
  have "\<not> isl (UnmarshalJSON ?m3 SlogEvent_zero)" by code_simp
  then obtain e where m3b: "UnmarshalJSON ?m3 SlogEvent_zero = Inr e"
    by (cases "UnmarshalJSON ?m3 SlogEvent_zero") auto
  from level_default [of "''disk full''"] 1 have "Level (parse ''disk full'') = INFO" by blast
  moreover from level_default [of ?m2 _ "''\"loud\"''"] 2 m2a m2b
  have "Level (parse ?m2) = INFO" by blast
  moreover from level_default [of ?m3 _ _ e] 3 m3a m3b have "Level (parse ?m3) = NONE" by blast
  ultimately show ?thesis by blast
qed

text \<open>
  C8, as the specification words it, fails: an object without \<open>level\<close> is parsed with
  the zero level, not with \<open>INFO\<close>.
\<close>

theorem level_absent_counterexample:
  "Unmarshal_map ''{\"msg\":\"started\"}'' = Inr [(''msg'', ''\"started\"'')] \<and>
   map_of [(''msg'', ''\"started\"'')] ''level'' = None \<and>
   Level (parse ''{\"msg\":\"started\"}'') \<noteq> INFO"
  by code_simp

section \<open>Properties of the decoded record\<close>

text \<open>
  C5. For a message that is a JSON object with \<open>level\<close> written \<open>"ERROR"\<close>, a \<open>time\<close>
  that decodes to \<open>T\<close>, \<open>msg\<close> written \<open>"m"\<close>, a field \<open>count\<close> written \<open>3\<close>, and a \<open>source\<close>
  that is absent or decodes, the method succeeds, and the record has the severity
  \<open>ERROR\<close>, the time \<open>T\<close>, the message \<open>m\<close> and the payload entry \<open>count \<mapsto> 3\<close>.
\<close>

theorem structured_record_fields:
  assumes "Unmarshal_map msg = Inr raw"
    and "map_of raw ''level'' = Some ''\"ERROR\"''"
    and "map_of raw ''time'' = Some tv" and "Unmarshal_Time tv Time_zero = Inr T"
    and "map_of raw ''msg'' = Some ''\"m\"''"
    and "map_of raw ''count'' = Some ''3''"
    and "map_of raw ''source'' = None \<or>
         (\<exists>sv src. map_of raw ''source'' = Some sv \<and>
                   Unmarshal_SourceInfo sv SourceInfo_zero = Inr src)"
  shows "\<exists>e. UnmarshalJSON msg SlogEvent_zero = Inr e \<and> parse msg = e \<and>
           Level e = ERROR \<and> Time e = T \<and> Message e = ''m'' \<and> Data e ''count'' = Some ''3''"
proof -
  have lv: "Unmarshal_Level ''\"ERROR\"'' Level_zero = Inr ERROR" by code_simp
  have m: "Unmarshal_string ''\"m\"'' [] = Inr ''m''" by code_simp
  have pt: "payload_text ''3'' = ''3''" by code_simp
  have st: "''count'' \<notin> set staticFields" by (simp add: staticFields_def)
  from assms(7) obtain src where
    src: "(case map_of raw ''source'' of Some v \<Rightarrow> Unmarshal_SourceInfo v (Source SlogEvent_zero)
           | None \<Rightarrow> Inr (Source SlogEvent_zero)) = Inr src"
    by (auto simp: zero_fields)
  let ?e = "SlogEvent_zero\<lparr>Level := ERROR, Time := T, Source := src, Message := ''m'',
              Data := range_raw raw Map.empty\<rparr>"
  have e: "UnmarshalJSON msg SlogEvent_zero = Inr ?e"
    by (rule UnmarshalJSON_Inr [OF assms(1) _ _ src])
      (simp_all add: assms zero_fields lv m)
  have "Data ?e ''count'' = Some ''3''"
    using UnmarshalJSON_Data [OF e assms(1), of "''count''"] st assms(6) pt by simp
  with e show ?thesis by (simp add: parse_decoded)
qed

theorem structured_record_fields_witness:
  "\<exists>e. UnmarshalJSON
          ''{\"time\":\"2023-11-14T22:13:20Z\",\"level\":\"ERROR\",\"msg\":\"m\",\"count\":3}''
          SlogEvent_zero = Inr e \<and>
        Level e = ERROR \<and> Time e = \<lparr>sec = 1700000000, nsec = 0\<rparr> \<and> Message e = ''m'' \<and>
        Data e ''count'' = Some ''3''"
proof -
  let ?m = "''{\"time\":\"2023-11-14T22:13:20Z\",\"level\":\"ERROR\",\"msg\":\"m\",\"count\":3}''"
  let ?raw = "[(''time'', ''\"2023-11-14T22:13:20Z\"''), (''level'', ''\"ERROR\"''),
               (''msg'', ''\"m\"''), (''count'', ''3'')]"
  have 1: "Unmarshal_map ?m = Inr ?raw" by code_simp
  have 2: "map_of ?raw ''level'' = Some ''\"ERROR\"''" by simp
  have 3: "map_of ?raw ''time'' = Some ''\"2023-11-14T22:13:20Z\"''" by simp
  have 4: "Unmarshal_Time ''\"2023-11-14T22:13:20Z\"'' Time_zero = Inr \<lparr>sec = 1700000000, nsec = 0\<rparr>"
    by code_simp
  have 5: "map_of ?raw ''msg'' = Some ''\"m\"''" by simp
  have 6: "map_of ?raw ''count'' = Some ''3''" by simp
  have 7: "map_of ?raw ''source'' = None \<or>
         (\<exists>sv src. map_of ?raw ''source'' = Some sv \<and>
                   Unmarshal_SourceInfo sv SourceInfo_zero = Inr src)" by simp
  from structured_record_fields [OF 1 2 3 4 5 6 7] show ?thesis by blast
qed

text \<open>
  C4, as the code has it. The reserved keys are decoded all or nothing. A \<open>level\<close> or
  a \<open>time\<close> that is present and does not decode makes the parsed record the fallback
  record of the raw text, in which nothing of the object is kept. When every reserved
  key that is present decodes, the record has the decoded fields, the zero value for
  every reserved key that is absent, and the text of every other key as payload.
\<close>

theorem reserved_keys_all_or_nothing:
  assumes "Unmarshal_map msg = Inr raw"
  shows "((\<exists>v. map_of raw ''level'' = Some v \<and> isl (Unmarshal_Level v Level_zero)) \<or>
          (\<exists>v. map_of raw ''time'' = Some v \<and> isl (Unmarshal_Time v Time_zero)) \<longrightarrow>
            parse msg = fallback msg \<and> Message (parse msg) = msg \<and>
            Source (parse msg) = SourceInfo_zero \<and> Data (parse msg) = Map.empty) \<and>
         ((case map_of raw ''level'' of Some v \<Rightarrow> Unmarshal_Level v Level_zero
           | None \<Rightarrow> Inr Level_zero) = Inr lv \<and>
          (case map_of raw ''time'' of Some v \<Rightarrow> Unmarshal_Time v Time_zero
           | None \<Rightarrow> Inr Time_zero) = Inr t \<and>
          (case map_of raw ''source'' of Some v \<Rightarrow> Unmarshal_SourceInfo v SourceInfo_zero
           | None \<Rightarrow> Inr SourceInfo_zero) = Inr src \<and>
          (case map_of raw ''msg'' of Some v \<Rightarrow> Unmarshal_string v []
           | None \<Rightarrow> Inr []) = Inr m \<longrightarrow>
            Level (parse msg) = lv \<and> Time (parse msg) = t \<and> Source (parse msg) = src \<and>
            Message (parse msg) = m \<and>
            (\<forall>k. Data (parse msg) k =
                   (if k \<in> set staticFields then None
                    else map_option payload_text (map_of raw k))))"
proof -
  have a: "parse msg = fallback msg \<and> Message (parse msg) = msg \<and>
           Source (parse msg) = SourceInfo_zero \<and> Data (parse msg) = Map.empty"
    if "(\<exists>v. map_of raw ''level'' = Some v \<and> isl (Unmarshal_Level v Level_zero)) \<or>
        (\<exists>v. map_of raw ''time'' = Some v \<and> isl (Unmarshal_Time v Time_zero))"
  proof -
    from that assms have "isl (UnmarshalJSON msg SlogEvent_zero)"
      unfolding UnmarshalJSON_isl by (auto simp: zero_fields)
    then have "parse msg = fallback msg" by (rule parse_failed)
    then show ?thesis by (simp add: fallback_fields)
  qed
  have b: "Level (parse msg) = lv \<and> Time (parse msg) = t \<and> Source (parse msg) = src \<and>
           Message (parse msg) = m \<and>
           (\<forall>k. Data (parse msg) k =
                  (if k \<in> set staticFields then None
                   else map_option payload_text (map_of raw k)))"
    if "(case map_of raw ''level'' of Some v \<Rightarrow> Unmarshal_Level v Level_zero
         | None \<Rightarrow> Inr Level_zero) = Inr lv"
      "(case map_of raw ''time'' of Some v \<Rightarrow> Unmarshal_Time v Time_zero
        | None \<Rightarrow> Inr Time_zero) = Inr t"
      "(case map_of raw ''source'' of Some v \<Rightarrow> Unmarshal_SourceInfo v SourceInfo_zero
        | None \<Rightarrow> Inr SourceInfo_zero) = Inr src"
      "(case map_of raw ''msg'' of Some v \<Rightarrow> Unmarshal_string v []
        | None \<Rightarrow> Inr []) = Inr m"
  proof -
    let ?e = "SlogEvent_zero\<lparr>Level := lv, Time := t, Source := src, Message := m,
                Data := range_raw raw Map.empty\<rparr>"
    have e: "UnmarshalJSON msg SlogEvent_zero = Inr ?e"
      by (rule UnmarshalJSON_Inr [OF assms]) (simp_all only: that zero_fields)
    then have p: "parse msg = ?e" by (rule parse_decoded)
    have "Data (parse msg) k =
            (if k \<in> set staticFields then None else map_option payload_text (map_of raw k))"
      for k unfolding p by (rule UnmarshalJSON_Data [OF e assms])
    then show ?thesis by (simp add: p)
  qed
  from a b show ?thesis by blast
qed


theorem reserved_keys_all_or_nothing_witness:
  "Message (parse ''{\"time\":12,\"msg\":\"up\",\"n\":1}'') = ''{\"time\":12,\"msg\":\"up\",\"n\":1}'' \<and>
   Data (parse ''{\"time\":12,\"msg\":\"up\",\"n\":1}'') ''n'' = None \<and>
   Message (parse ''{\"msg\":\"up\",\"source\":{\"file\":\"a.go\",\"line\":7},\"n\":1}'') = ''up'' \<and>
   Source (parse ''{\"msg\":\"up\",\"source\":{\"file\":\"a.go\",\"line\":7},\"n\":1}'') =
     \<lparr>Function = [], File = ''a.go'', Line = 7\<rparr> \<and>
   Level (parse ''{\"msg\":\"up\",\"source\":{\"file\":\"a.go\",\"line\":7},\"n\":1}'') = NONE \<and>
   Data (parse ''{\"msg\":\"up\",\"source\":{\"file\":\"a.go\",\"line\":7},\"n\":1}'') ''n'' = Some ''1'' \<and>
   Data (parse ''{\"msg\":\"up\",\"source\":{\"file\":\"a.go\",\"line\":7},\"n\":1}'') ''msg'' = None"
proof -
  let ?m1 = "''{\"time\":12,\"msg\":\"up\",\"n\":1}''"
  let ?r1 = "[(''time'', ''12''), (''msg'', ''\"up\"''), (''n'', ''1'')]"
  let ?m2 = "''{\"msg\":\"up\",\"source\":{\"file\":\"a.go\",\"line\":7},\"n\":1}''"
  let ?r2 = "[(''msg'', ''\"up\"''), (''source'', ''{\"file\":\"a.go\",\"line\":7}''), (''n'', ''1'')]"
  have r1: "Unmarshal_map ?m1 = Inr ?r1" by code_simp
  have t1: "map_of ?r1 ''time'' = Some ''12'' \<and> isl (Unmarshal_Time ''12'' Time_zero)"
    by code_simp
  from reserved_keys_all_or_nothing [OF r1] t1
  have f1: "Message (parse ?m1) = ?m1" and f2: "Data (parse ?m1) = Map.empty" by blast+
  from f2 have f3: "Data (parse ?m1) ''n'' = None" by (simp only:)
  have r2: "Unmarshal_map ?m2 = Inr ?r2" by code_simp
  have l2: "(case map_of ?r2 ''level'' of Some v \<Rightarrow> Unmarshal_Level v Level_zero
             | None \<Rightarrow> Inr Level_zero) = Inr NONE" by code_simp
  have t2: "(case map_of ?r2 ''time'' of Some v \<Rightarrow> Unmarshal_Time v Time_zero
             | None \<Rightarrow> Inr Time_zero) = Inr Time_zero" by simp
  have s2: "(case map_of ?r2 ''source'' of Some v \<Rightarrow> Unmarshal_SourceInfo v SourceInfo_zero
             | None \<Rightarrow> Inr SourceInfo_zero) = Inr \<lparr>Function = [], File = ''a.go'', Line = 7\<rparr>"
    by code_simp
  have m2: "(case map_of ?r2 ''msg'' of Some v \<Rightarrow> Unmarshal_string v []
             | None \<Rightarrow> Inr []) = Inr ''up''" by code_simp
  from reserved_keys_all_or_nothing [OF r2, of NONE Time_zero _ "''up''"] l2 t2 s2 m2
  have g: "Level (parse ?m2) = NONE" "Source (parse ?m2) = \<lparr>Function = [], File = ''a.go'', Line = 7\<rparr>"
    "Message (parse ?m2) = ''up''"
    and d: "\<forall>k. Data (parse ?m2) k =
               (if k \<in> set staticFields then None else map_option payload_text (map_of ?r2 k))"
    by blast+
  have pn: "(if ''n'' \<in> set staticFields then None
             else map_option payload_text (map_of ?r2 ''n'')) = Some ''1''" by code_simp
  have pm: "(if ''msg'' \<in> set staticFields then None
             else map_option payload_text (map_of ?r2 ''msg'')) = None" by code_simp
  from d pn have dn: "Data (parse ?m2) ''n'' = Some ''1''" by (simp only:)
  from d pm have dm: "Data (parse ?m2) ''msg'' = None" by (simp only:)
  from f1 f3 g dn dm show ?thesis by blast
qed

text \<open>
  C4, as the specification words it, fails: in an object whose \<open>time\<close> does not decode,
  the message, the source location and the payload are not recovered although each of
  them decodes by itself.
\<close>

theorem best_effort_counterexample:
  "Unmarshal_map
     ''{\"level\":\"ERROR\",\"time\":\"yesterday\",\"msg\":\"disk full\",\"source\":{\"file\":\"a.go\",\"line\":7},\"user\":\"bob\"}'' =
     Inr [(''level'', ''\"ERROR\"''), (''time'', ''\"yesterday\"''), (''msg'', ''\"disk full\"''),
          (''source'', ''{\"file\":\"a.go\",\"line\":7}''), (''user'', ''\"bob\"'')] \<and>
   Unmarshal_Time ''\"yesterday\"'' Time_zero = Inl ParseError \<and>
   Unmarshal_string ''\"disk full\"'' [] = Inr ''disk full'' \<and>
   Unmarshal_SourceInfo ''{\"file\":\"a.go\",\"line\":7}'' SourceInfo_zero =
     Inr \<lparr>Function = [], File = ''a.go'', Line = 7\<rparr> \<and>
   payload_text ''\"bob\"'' = ''bob'' \<and>
   Message (parse ''{\"level\":\"ERROR\",\"time\":\"yesterday\",\"msg\":\"disk full\",\"source\":{\"file\":\"a.go\",\"line\":7},\"user\":\"bob\"}'') \<noteq> ''disk full'' \<and>
   Source (parse ''{\"level\":\"ERROR\",\"time\":\"yesterday\",\"msg\":\"disk full\",\"source\":{\"file\":\"a.go\",\"line\":7},\"user\":\"bob\"}'') =
     SourceInfo_zero \<and>
   Data (parse ''{\"level\":\"ERROR\",\"time\":\"yesterday\",\"msg\":\"disk full\",\"source\":{\"file\":\"a.go\",\"line\":7},\"user\":\"bob\"}'') ''user'' = None"
  by code_simp

text \<open>What the loop stores for a value, by the kind of the value.\<close>

lemma payload_text_kinds:
  "checkValid v \<Longrightarrow>
   payload_text v =
     (case kind_of v of
        JString \<Rightarrow> unquote (trimSpace v)
      | JNumber \<Rightarrow> trimSpace v
      | JNull \<Rightarrow> []
      | _ \<Rightarrow> v)"
  by (simp add: payload_text_def Unmarshal_string_def Unmarshal_Number_def
      split: json_kind.splits)

text \<open>
  C6 fails on a field that is \<open>null\<close>: the first decoding, into a string, takes \<open>null\<close>
  without error and leaves the string empty, so the payload holds the empty string and
  not the text \<open>null\<close> of the value.
\<close>

theorem payload_null_is_empty:
  "Unmarshal_map ''{\"msg\":\"up\",\"user\":null}'' =
     Inr [(''msg'', ''\"up\"''), (''user'', ''null'')] \<and>
   kind_of ''null'' = JNull \<and>
   Unmarshal_string ''null'' [] = Inr [] \<and>
   Message (parse ''{\"msg\":\"up\",\"user\":null}'') = ''up'' \<and>
   Data (parse ''{\"msg\":\"up\",\"user\":null}'') ''user'' = Some []"
  by code_simp

end
